theory Spec2Isabelle
  imports Main "HOL-Library.Word"
begin

section \<open>Errors and results\<close>

text \<open>
  Every \<^verbatim>\<open>throw\<close> of the source and every exception raised by the Node.js runtime is a
  value of \<open>error\<close>; a function that can throw returns \<open>error + 'a\<close> with \<open>Inl\<close> the error.
  \<open>TypeError\<close>, \<open>Error\<close>, \<open>SessionNotFound\<close> and \<open>UserNotFound\<close> carry the message the source
  gives them; \<open>RangeError\<close> is what the Buffer API raises on an out-of-range offset, value
  or size.
\<close>

datatype error =
    TypeError string
  | RangeError
  | Error string
  | SessionNotFound string nat
  | UserNotFound string string

definition andThen :: "error + 'a \<Rightarrow> ('a \<Rightarrow> error + 'b) \<Rightarrow> error + 'b" where
  "andThen m f = (case m of Inl e \<Rightarrow> Inl e | Inr v \<Rightarrow> f v)"

section \<open>The Node.js Buffer operations used by the codec\<close>

text \<open>
  A Buffer is a list of bytes. JavaScript numbers that hold unsigned quantities (offsets,
  lengths, unsigned fields) are \<open>nat\<close>; the result of a signed read and the size given to
  \<open>Buffer.alloc\<close> are \<open>int\<close>. A mutation of a Buffer returns the new Buffer.
  JavaScript strings are modelled as lists of 8-bit characters.
\<close>

type_synonym byte = "8 word"
type_synonym Buffer = "byte list"

text \<open>\<^verbatim>\<open>Buffer.alloc(size)\<close>: a zero-filled Buffer; a negative size is a RangeError.\<close>

definition Buffer_alloc :: "int \<Rightarrow> error + Buffer" where
  "Buffer_alloc n = (if n < 0 then Inl RangeError else Inr (replicate (nat n) 0))"

text \<open>\<^verbatim>\<open>Buffer.from(str, 'ascii')\<close>: one byte per character (encoding with \<^verbatim>\<open>'ascii'\<close> is
  encoding with \<^verbatim>\<open>'latin1'\<close>); \<^verbatim>\<open>Buffer.byteLength(str, 'ascii')\<close> is the number of
  characters.\<close>

definition Buffer_from :: "string \<Rightarrow> Buffer" where
  "Buffer_from str = map (\<lambda>c. of_nat (of_char c)) str"

definition Buffer_byteLength :: "string \<Rightarrow> nat" where
  "Buffer_byteLength str = length str"

text \<open>\<^verbatim>\<open>buf.toString('ascii', start, end)\<close>: decoding unsets the highest bit of each byte.\<close>

definition Buffer_toString :: "Buffer \<Rightarrow> nat \<Rightarrow> nat \<Rightarrow> string" where
  "Buffer_toString buf start stop =
     map (\<lambda>b. char_of (unat b mod 128)) (take (stop - start) (drop start buf))"

text \<open>\<^verbatim>\<open>buf.indexOf("\0", offset, encoding)\<close>: the index of the first zero byte at or after
  \<open>offset\<close>, or \<open>-1\<close>.\<close>

definition Buffer_indexOf0 :: "Buffer \<Rightarrow> nat \<Rightarrow> int" where
  "Buffer_indexOf0 buf offset =
     (if 0 \<in> set (drop offset buf)
      then int (offset + length (takeWhile (\<lambda>b. b \<noteq> 0) (drop offset buf)))
      else - 1)"

text \<open>The fixed-width reads: a read that does not lie inside the Buffer is a RangeError.\<close>

definition readUInt8 :: "Buffer \<Rightarrow> nat \<Rightarrow> error + nat" where
  "readUInt8 buf offset =
     (if offset + 1 \<le> length buf then Inr (unat (buf ! offset)) else Inl RangeError)"

definition readUInt16LE :: "Buffer \<Rightarrow> nat \<Rightarrow> error + nat" where
  "readUInt16LE buf offset =
     (if offset + 2 \<le> length buf
      then Inr (unat (buf ! offset) + unat (buf ! (offset + 1)) * 2 ^ 8)
      else Inl RangeError)"

definition readInt16LE :: "Buffer \<Rightarrow> nat \<Rightarrow> error + int" where
  "readInt16LE buf offset =
     (if offset + 2 \<le> length buf
      then (let val = unat (buf ! offset) + unat (buf ! (offset + 1)) * 2 ^ 8
            in Inr (if 2 ^ 15 \<le> val then int val - 2 ^ 16 else int val))
      else Inl RangeError)"

definition readUInt32LE :: "Buffer \<Rightarrow> nat \<Rightarrow> error + nat" where
  "readUInt32LE buf offset =
     (if offset + 4 \<le> length buf
      then Inr (unat (buf ! offset) + unat (buf ! (offset + 1)) * 2 ^ 8
                + unat (buf ! (offset + 2)) * 2 ^ 16 + unat (buf ! (offset + 3)) * 2 ^ 24)
      else Inl RangeError)"

text \<open>The fixed-width writes: a value outside the field's range or a write that does not
  lie inside the Buffer is a RangeError.\<close>

definition writeUInt8 :: "Buffer \<Rightarrow> nat \<Rightarrow> nat \<Rightarrow> error + Buffer" where
  "writeUInt8 buf val offset =
     (if 2 ^ 8 \<le> val then Inl RangeError
      else if length buf < offset + 1 then Inl RangeError
      else Inr (buf[offset := of_nat val]))"

definition writeUInt16LE :: "Buffer \<Rightarrow> nat \<Rightarrow> nat \<Rightarrow> error + Buffer" where
  "writeUInt16LE buf val offset =
     (if 2 ^ 16 \<le> val then Inl RangeError
      else if length buf < offset + 2 then Inl RangeError
      else Inr (buf[offset := of_nat val, offset + 1 := of_nat (val div 2 ^ 8)]))"

definition writeUInt32LE :: "Buffer \<Rightarrow> nat \<Rightarrow> nat \<Rightarrow> error + Buffer" where
  "writeUInt32LE buf val offset =
     (if 2 ^ 32 \<le> val then Inl RangeError
      else if length buf < offset + 4 then Inl RangeError
      else Inr (buf[offset := of_nat val, offset + 1 := of_nat (val div 2 ^ 8),
                    offset + 2 := of_nat (val div 2 ^ 16), offset + 3 := of_nat (val div 2 ^ 24)]))"

text \<open>\<^verbatim>\<open>source.copy(target, targetStart, sourceStart, sourceEnd)\<close>: a \<open>sourceStart\<close> beyond the
  source is a RangeError; otherwise as many bytes are copied as the range, the source and
  the target allow, and the rest of the target is left as it was. The result is the
  target after the copy.\<close>

definition Buffer_copy :: "Buffer \<Rightarrow> Buffer \<Rightarrow> nat \<Rightarrow> nat \<Rightarrow> nat \<Rightarrow> error + Buffer" where
  "Buffer_copy source target targetStart sourceStart sourceEnd =
     (if length source < sourceStart then Inl RangeError
      else if length target \<le> targetStart \<or> sourceEnd \<le> sourceStart then Inr target
      else (let nb = min (min (sourceEnd - sourceStart) (length target - targetStart))
                         (length source - sourceStart)
            in Inr (take targetStart target @ take nb (drop sourceStart source)
                    @ drop (targetStart + nb) target)))"

section \<open>The wire codec (source/proto.js)\<close>

subsection \<open>Protocol constants\<close>

definition SERVER_NEGOTIATE :: nat where "SERVER_NEGOTIATE = 0xD003CA01"
definition AUTH_NEGOTIATE :: nat where "AUTH_NEGOTIATE = 0xD003CA10"
definition SERVER_EPHEMERAL :: nat where "SERVER_EPHEMERAL = 0xD003CA02"
definition AUTH_EPHEMERAL :: nat where "AUTH_EPHEMERAL = 0xD003CA20"
definition SERVER_PROOF :: nat where "SERVER_PROOF = 0xD003CA03"
definition AUTH_PROOF :: nat where "AUTH_PROOF = 0xD003CA30"
definition ERROR_USER :: nat where "ERROR_USER = 0xD003CAFF"
definition ERROR_CLIENTSESSION :: nat where "ERROR_CLIENTSESSION = 0xD003CAFF"
definition ERROR_SESSION :: nat where "ERROR_SESSION = 0xD003CAEE"

subsection \<open>Strings\<close>

definition readString :: "Buffer \<Rightarrow> nat \<Rightarrow> error + string" where
  "readString buf offset =
     (let z = Buffer_indexOf0 buf offset
      in if z = - 1 then Inl (TypeError ''Null-terminator not found in buffer'')
         else Inr (Buffer_toString buf offset (nat z)))"

definition writeString :: "Buffer \<Rightarrow> string \<Rightarrow> nat \<Rightarrow> error + Buffer" where
  "writeString buf str offset =
     (let string = Buffer_from str
      in andThen (Buffer_copy string buf offset 0 (length string))
           (\<lambda>buf. writeUInt8 buf 0 (offset + length string)))"

subsection \<open>Packet values\<close>

record serverNegotiate =
  sn_clientSession :: nat
  sn_username :: string
  sn_version :: nat

record authNegotiate =
  an_clientSession :: nat
  an_session :: nat
  an_salt :: Buffer
  an_username :: string

text \<open>The value of SERVER_EPHEMERAL and AUTH_EPHEMERAL, and of SERVER_PROOF and AUTH_PROOF.\<close>

record ephemeralPacket =
  ep_session :: nat
  ep_ephemeral :: Buffer

record proofPacket =
  pp_session :: nat
  pp_proof :: Buffer

record userError =
  ue_error :: nat
  ue_username :: string

record clientSessionError =
  ce_clientSession :: nat
  ce_error :: nat

record sessionError =
  se_error :: nat
  se_session :: nat

subsection \<open>Server negotiation\<close>

definition serverNegotiate_marshall :: "serverNegotiate \<Rightarrow> error + Buffer" where
  "serverNegotiate_marshall data =
     andThen (Buffer_alloc (int (9 + Buffer_byteLength (sn_username data) + 1))) (\<lambda>buf.
     andThen (writeUInt32LE buf SERVER_NEGOTIATE 0) (\<lambda>buf.
     andThen (writeUInt8 buf (sn_version data) 4) (\<lambda>buf.
     andThen (writeUInt32LE buf (sn_clientSession data) 5) (\<lambda>buf.
     writeString buf (sn_username data) 9))))"

definition serverNegotiate_unmarshall :: "Buffer \<Rightarrow> error + serverNegotiate" where
  "serverNegotiate_unmarshall buf =
     andThen (readUInt32LE buf 0) (\<lambda>magic.
     if magic \<noteq> SERVER_NEGOTIATE
     then Inl (TypeError ''Buffer is not a SERVER_NEGOTIATE packet'')
     else andThen (readUInt8 buf 4) (\<lambda>version.
     if version \<noteq> 1 \<and> version \<noteq> 2
     then Inl (TypeError ''Buffer is unknown version of protocol'')
     else andThen (readUInt32LE buf 5) (\<lambda>clientSession.
          andThen (readString buf 9) (\<lambda>username.
          Inr \<lparr>sn_clientSession = clientSession, sn_username = username,
               sn_version = version\<rparr>))))"

subsection \<open>Auth server negotiation\<close>

definition authNegotiate_marshall :: "authNegotiate \<Rightarrow> error + Buffer" where
  "authNegotiate_marshall data =
     andThen (Buffer_alloc (int (14 + length (an_salt data)
                                 + Buffer_byteLength (an_username data) + 1))) (\<lambda>buf.
     andThen (writeUInt32LE buf AUTH_NEGOTIATE 0) (\<lambda>buf.
     andThen (writeUInt8 buf 1 4) (\<lambda>buf.
     andThen (writeUInt32LE buf (an_clientSession data) 5) (\<lambda>buf.
     andThen (writeUInt32LE buf (an_session data) 9) (\<lambda>buf.
     andThen (writeUInt8 buf (length (an_salt data)) 13) (\<lambda>buf.
     andThen (Buffer_copy (an_salt data) buf 14 0 (length (an_salt data))) (\<lambda>buf.
     writeString buf (an_username data) (14 + length (an_salt data)))))))))"

definition authNegotiate_unmarshall :: "Buffer \<Rightarrow> error + authNegotiate" where
  "authNegotiate_unmarshall buf =
     andThen (readUInt32LE buf 0) (\<lambda>magic.
     if magic \<noteq> AUTH_NEGOTIATE
     then Inl (TypeError ''Buffer is not a AUTH_NEGOTIATE packet'')
     else andThen (readUInt8 buf 4) (\<lambda>version.
     if version \<noteq> 1
     then Inl (TypeError ''Buffer is incorrect version of protocol'')
     else andThen (readUInt8 buf 13) (\<lambda>salt_len.
          andThen (Buffer_alloc (int salt_len)) (\<lambda>salt.
          andThen (Buffer_copy buf salt 0 14 (14 + salt_len)) (\<lambda>salt.
          andThen (readUInt32LE buf 5) (\<lambda>clientSession.
          andThen (readUInt32LE buf 9) (\<lambda>session.
          andThen (readString buf (14 + salt_len)) (\<lambda>username.
          Inr \<lparr>an_clientSession = clientSession, an_session = session, an_salt = salt,
               an_username = username\<rparr>))))))))"

subsection \<open>Server ephemeral and auth server ephemeral\<close>

definition serverEphemeral_marshall :: "ephemeralPacket \<Rightarrow> error + Buffer" where
  "serverEphemeral_marshall data =
     andThen (Buffer_alloc (int (10 + length (ep_ephemeral data)))) (\<lambda>buf.
     andThen (writeUInt32LE buf SERVER_EPHEMERAL 0) (\<lambda>buf.
     andThen (writeUInt32LE buf (ep_session data) 4) (\<lambda>buf.
     andThen (writeUInt16LE buf (length (ep_ephemeral data)) 8) (\<lambda>buf.
     Buffer_copy (ep_ephemeral data) buf 10 0 (length (ep_ephemeral data))))))"

definition serverEphemeral_unmarshall :: "Buffer \<Rightarrow> error + ephemeralPacket" where
  "serverEphemeral_unmarshall buf =
     andThen (readUInt32LE buf 0) (\<lambda>magic.
     if magic \<noteq> SERVER_EPHEMERAL
     then Inl (TypeError ''Buffer is not a SERVER_EPHEMERAL packet'')
     else andThen (readUInt16LE buf 8) (\<lambda>ephemeralLength.
          andThen (Buffer_alloc (int ephemeralLength)) (\<lambda>ephemeral.
          andThen (Buffer_copy buf ephemeral 0 10 (10 + ephemeralLength)) (\<lambda>ephemeral.
          andThen (readUInt32LE buf 4) (\<lambda>session.
          Inr \<lparr>ep_session = session, ep_ephemeral = ephemeral\<rparr>)))))"

definition authEphemeral_marshall :: "ephemeralPacket \<Rightarrow> error + Buffer" where
  "authEphemeral_marshall data =
     andThen (Buffer_alloc (int (10 + length (ep_ephemeral data)))) (\<lambda>buf.
     andThen (writeUInt32LE buf AUTH_EPHEMERAL 0) (\<lambda>buf.
     andThen (writeUInt32LE buf (ep_session data) 4) (\<lambda>buf.
     andThen (writeUInt16LE buf (length (ep_ephemeral data)) 8) (\<lambda>buf.
     Buffer_copy (ep_ephemeral data) buf 10 0 (length (ep_ephemeral data))))))"

definition authEphemeral_unmarshall :: "Buffer \<Rightarrow> error + ephemeralPacket" where
  "authEphemeral_unmarshall buf =
     andThen (readUInt32LE buf 0) (\<lambda>magic.
     if magic \<noteq> AUTH_EPHEMERAL
     then Inl (TypeError ''Buffer is not an AUTH_EPHEMERAL packet'')
     else andThen (readUInt16LE buf 8) (\<lambda>ephemeralLength.
          andThen (Buffer_alloc (int ephemeralLength)) (\<lambda>ephemeral.
          andThen (Buffer_copy buf ephemeral 0 10 (10 + ephemeralLength)) (\<lambda>ephemeral.
          andThen (readUInt32LE buf 4) (\<lambda>session.
          Inr \<lparr>ep_session = session, ep_ephemeral = ephemeral\<rparr>)))))"

subsection \<open>Server proof and auth server proof\<close>

definition serverProof_marshall :: "proofPacket \<Rightarrow> error + Buffer" where
  "serverProof_marshall data =
     andThen (Buffer_alloc (int (10 + length (pp_proof data)))) (\<lambda>buf.
     andThen (writeUInt32LE buf SERVER_PROOF 0) (\<lambda>buf.
     andThen (writeUInt32LE buf (pp_session data) 4) (\<lambda>buf.
     andThen (writeUInt16LE buf (length (pp_proof data)) 8) (\<lambda>buf.
     Buffer_copy (pp_proof data) buf 10 0 (length (pp_proof data))))))"

definition serverProof_unmarshall :: "Buffer \<Rightarrow> error + proofPacket" where
  "serverProof_unmarshall buf =
     andThen (readUInt32LE buf 0) (\<lambda>magic.
     if magic \<noteq> SERVER_PROOF
     then Inl (TypeError ''Buffer is not an SERVER_PROOF packet'')
     else andThen (readUInt16LE buf 8) (\<lambda>proofLength.
          andThen (Buffer_alloc (int proofLength)) (\<lambda>proof.
          andThen (Buffer_copy buf proof 0 10 (10 + proofLength)) (\<lambda>proof.
          andThen (readUInt32LE buf 4) (\<lambda>session.
          Inr \<lparr>pp_session = session, pp_proof = proof\<rparr>)))))"

definition authProof_marshall :: "proofPacket \<Rightarrow> error + Buffer" where
  "authProof_marshall data =
     andThen (Buffer_alloc (int (10 + length (pp_proof data)))) (\<lambda>buf.
     andThen (writeUInt32LE buf AUTH_PROOF 0) (\<lambda>buf.
     andThen (writeUInt32LE buf (pp_session data) 4) (\<lambda>buf.
     andThen (writeUInt16LE buf (length (pp_proof data)) 8) (\<lambda>buf.
     Buffer_copy (pp_proof data) buf 10 0 (length (pp_proof data))))))"

text \<open>The proof length is read with \<^verbatim>\<open>readInt16LE\<close>, so it is an \<open>int\<close>; the copy is only
  reached when \<open>Buffer_alloc\<close> accepted it, that is when it is not negative.\<close>

definition authProof_unmarshall :: "Buffer \<Rightarrow> error + proofPacket" where
  "authProof_unmarshall buf =
     andThen (readUInt32LE buf 0) (\<lambda>magic.
     if magic \<noteq> AUTH_PROOF
     then Inl (TypeError ''Buffer is not an AUTH_PROOF packet'')
     else andThen (readInt16LE buf 8) (\<lambda>proofLength.
          andThen (Buffer_alloc proofLength) (\<lambda>proof.
          andThen (Buffer_copy buf proof 0 10 (nat (10 + proofLength))) (\<lambda>proof.
          andThen (readUInt32LE buf 4) (\<lambda>session.
          Inr \<lparr>pp_session = session, pp_proof = proof\<rparr>)))))"

subsection \<open>Errors\<close>

definition userError_marshall :: "userError \<Rightarrow> error + Buffer" where
  "userError_marshall data =
     andThen (Buffer_alloc (int (5 + Buffer_byteLength (ue_username data) + 1))) (\<lambda>buf.
     andThen (writeUInt32LE buf ERROR_USER 0) (\<lambda>buf.
     andThen (writeUInt8 buf (ue_error data) 4) (\<lambda>buf.
     writeString buf (ue_username data) 5)))"

definition userError_unmarshall :: "Buffer \<Rightarrow> error + userError" where
  "userError_unmarshall buf =
     andThen (readUInt32LE buf 0) (\<lambda>magic.
     if magic \<noteq> ERROR_USER
     then Inl (TypeError ''Buffer is not an ERROR_USER packet'')
     else andThen (readUInt8 buf 4) (\<lambda>err.
          andThen (readString buf 5) (\<lambda>username.
          Inr \<lparr>ue_error = err, ue_username = username\<rparr>)))"

definition clientSessionError_marshall :: "clientSessionError \<Rightarrow> error + Buffer" where
  "clientSessionError_marshall data =
     andThen (Buffer_alloc 9) (\<lambda>buf.
     andThen (writeUInt32LE buf ERROR_CLIENTSESSION 0) (\<lambda>buf.
     andThen (writeUInt8 buf (ce_error data) 4) (\<lambda>buf.
     writeUInt32LE buf (ce_clientSession data) 5)))"

definition clientSessionError_unmarshall :: "Buffer \<Rightarrow> error + clientSessionError" where
  "clientSessionError_unmarshall buf =
     andThen (readUInt32LE buf 0) (\<lambda>magic.
     if magic \<noteq> ERROR_CLIENTSESSION
     then Inl (TypeError ''Buffer is not an ERROR_SESSION packet'')
     else andThen (readUInt32LE buf 5) (\<lambda>clientSession.
          andThen (readUInt8 buf 4) (\<lambda>err.
          Inr \<lparr>ce_clientSession = clientSession, ce_error = err\<rparr>)))"

definition sessionError_marshall :: "sessionError \<Rightarrow> error + Buffer" where
  "sessionError_marshall data =
     andThen (Buffer_alloc 9) (\<lambda>buf.
     andThen (writeUInt32LE buf ERROR_SESSION 0) (\<lambda>buf.
     andThen (writeUInt8 buf (se_error data) 4) (\<lambda>buf.
     writeUInt32LE buf (se_session data) 5)))"

definition sessionError_unmarshall :: "Buffer \<Rightarrow> error + sessionError" where
  "sessionError_unmarshall buf =
     andThen (readUInt32LE buf 0) (\<lambda>magic.
     if magic \<noteq> ERROR_SESSION
     then Inl (TypeError ''Buffer is not an ERROR_SESSION packet'')
     else andThen (readUInt8 buf 4) (\<lambda>err.
          andThen (readUInt32LE buf 5) (\<lambda>session.
          Inr \<lparr>se_error = err, se_session = session\<rparr>)))"

section \<open>The version 1 codec (src/unnamed/part_001)\<close>

text \<open>
  The older codec knows one layout of SERVER_NEGOTIATE: magic, version 1, username. Its
  \<^verbatim>\<open>readString\<close> finds the terminator with \<^verbatim>\<open>buffertools.indexOf(buf, "\0", offset)\<close>, which
  like \<^verbatim>\<open>buf.indexOf\<close> gives the index of the first zero byte at or after the offset, or -1.
\<close>

record serverNegotiate_v1 =
  sn1_username :: string

definition readString_v1 :: "Buffer \<Rightarrow> nat \<Rightarrow> error + string" where
  "readString_v1 buf offset =
     (let z = Buffer_indexOf0 buf offset
      in if z = - 1 then Inl (TypeError ''Null-terminator not found in buffer'')
         else Inr (Buffer_toString buf offset (nat z)))"

definition serverNegotiate_v1_unmarshall :: "Buffer \<Rightarrow> error + serverNegotiate_v1" where
  "serverNegotiate_v1_unmarshall buf =
     andThen (readUInt32LE buf 0) (\<lambda>magic.
     if magic \<noteq> SERVER_NEGOTIATE
     then Inl (TypeError ''Buffer is not a SERVER_NEGOTIATE packet'')
     else andThen (readUInt8 buf 4) (\<lambda>version.
     if version \<noteq> 1
     then Inl (TypeError ''Buffer is incorrect version of protocol'')
     else andThen (readString_v1 buf 5) (\<lambda>username.
          Inr \<lparr>sn1_username = username\<rparr>)))"

section \<open>The database connection (source/dbconn.js)\<close>

subsection \<open>The environment: randomness and time\<close>

text \<open>
  \<^verbatim>\<open>crypto.randomBytes(n)\<close> returns \<open>n\<close> bytes of the system's random source. The source
  of one call is a function \<open>rnd\<close> giving the \<open>i\<close>-th byte it draws, so every Buffer of
  \<open>n\<close> bytes is a possible result and no other is.
\<close>

type_synonym entropy = "nat \<Rightarrow> byte"

definition randomBytes :: "nat \<Rightarrow> entropy \<Rightarrow> Buffer" where
  "randomBytes n rnd = map rnd [0..<n]"

text \<open>
  A \<^verbatim>\<open>Date\<close> is its number of milliseconds since the epoch. \<^verbatim>\<open>getSecondsBetween\<close> comes
  from the date-utils package, which computes
  \<^verbatim>\<open>((date.valueOf() - this.valueOf()) / 1000) | 0\<close>: the quotient is cut towards zero and
  taken as a signed 32-bit integer.
\<close>

type_synonym Date = int

definition ToInt32 :: "int \<Rightarrow> int" where
  "ToInt32 x = (x + 2 ^ 31) mod 2 ^ 32 - 2 ^ 31"

definition getSecondsBetween :: "Date \<Rightarrow> Date \<Rightarrow> int" where
  "getSecondsBetween this date =
     (let d = date - this
      in ToInt32 (if d < 0 then - ((- d) div 1000) else d div 1000))"

text \<open>\<^verbatim>\<open>str.toLowerCase()\<close> on 8-bit characters: the letters A to Z and the upper case
  letters of Latin-1 (0xC0 to 0xDE but 0xD7) move up by 32.\<close>

definition toLowerCase :: "string \<Rightarrow> string" where
  "toLowerCase str =
     map (\<lambda>c. let n = (of_char c :: nat)
              in if (65 \<le> n \<and> n \<le> 90) \<or> (192 \<le> n \<and> n \<le> 222 \<and> n \<noteq> 215)
                 then char_of (n + 32) else c) str"

subsection \<open>Tables\<close>

datatype access = OWNER | MASTER | OP | USER | UNVERIFIED

record User =
  User_id :: nat
  username :: string
  email :: string
  verifier :: Buffer
  salt :: Buffer
  access :: access
  active :: bool

text \<open>A Session row; a BLOB column that is NULL is \<open>None\<close>. \<open>UserId\<close> is the foreign key of
  \<^verbatim>\<open>Session.belongsTo(User)\<close>. The column \<^verbatim>\<open>updatedAt\<close> is never read by the functions below
  and is left out.\<close>

record Session =
  Session_id :: nat
  session :: nat
  ephemeral :: "Buffer option"
  secret :: "Buffer option"
  UserId :: "nat option"
  createdAt :: Date

text \<open>A Profile row, with the columns \<^verbatim>\<open>addUser\<close> sets.\<close>

record Profile =
  Profile_id :: nat
  Profile_username :: string
  Profile_UserId :: "nat option"

record DBConn =
  Users :: "User list"
  Sessions :: "Session list"
  Profiles :: "Profile list"

text \<open>The primary key of a new row: one more than the largest key of the table.\<close>

definition nextId :: "nat list \<Rightarrow> nat" where
  "nextId ids = Suc (fold max ids 0)"

text \<open>\<^verbatim>\<open>user.save()\<close> and the save of a Session instance write the row with the instance's
  primary key.\<close>

definition User_save :: "DBConn \<Rightarrow> User \<Rightarrow> DBConn" where
  "User_save db user =
     db\<lparr>Users := map (\<lambda>u. if User_id u = User_id user then user else u) (Users db)\<rparr>"

definition Session_save :: "DBConn \<Rightarrow> Session \<Rightarrow> DBConn" where
  "Session_save db sess =
     db\<lparr>Sessions := map (\<lambda>s. if Session_id s = Session_id sess then sess else s) (Sessions db)\<rparr>"

text \<open>
  \<^verbatim>\<open>sess.update({ephemeral: ..., secret: ...})\<close> sets the two fields of the instance and writes
  these two columns, and no other, to the row with the instance's primary key. The result
  is the instance and the database afterwards.
\<close>

definition Session_update :: "DBConn \<Rightarrow> Session \<Rightarrow> Buffer \<Rightarrow> Buffer \<Rightarrow> Session \<times> DBConn" where
  "Session_update db sess ephemeral' secret' =
     (sess\<lparr>ephemeral := Some ephemeral', secret := Some secret'\<rparr>,
      db\<lparr>Sessions := map (\<lambda>s. if Session_id s = Session_id sess
                              then s\<lparr>ephemeral := Some ephemeral', secret := Some secret'\<rparr>
                              else s)
                         (Sessions db)\<rparr>)"

text \<open>\<^verbatim>\<open>Session.create({ session: sessionID })\<close>: a new row with every other column NULL.\<close>

definition Session_create :: "DBConn \<Rightarrow> nat \<Rightarrow> Date \<Rightarrow> Session \<times> DBConn" where
  "Session_create db sessionID now =
     (let sess = \<lparr>Session_id = nextId (map Session_id (Sessions db)), session = sessionID,
                  ephemeral = None, secret = None, UserId = None, createdAt = now\<rparr>
      in (sess, db\<lparr>Sessions := Sessions db @ [sess]\<rparr>))"

text \<open>\<^verbatim>\<open>sess.getUser()\<close>: the User row the foreign key names, or null.\<close>

definition getUser :: "DBConn \<Rightarrow> Session \<Rightarrow> User option" where
  "getUser db sess =
     (case UserId sess of
        None \<Rightarrow> None
      | Some uid \<Rightarrow> find (\<lambda>u. User_id u = uid) (Users db))"

text \<open>\<^verbatim>\<open>session.setUser(user)\<close>: sets the foreign key and saves the row.\<close>

definition setUser :: "DBConn \<Rightarrow> Session \<Rightarrow> User \<Rightarrow> Session \<times> DBConn" where
  "setUser db sess user =
     (let sess' = sess\<lparr>UserId := Some (User_id user)\<rparr> in (sess', Session_save db sess'))"

subsection \<open>Users\<close>

text \<open>
  \<^verbatim>\<open>srp.computeVerifier(params, salt, I, P)\<close> is defined in the module \<^verbatim>\<open>../srp\<close>, which is not
  among the sources: the functions that call it take it as the parameter
  \<open>computeVerifier\<close>, applied to the salt, the user name and the password (the group
  parameters are always \<^verbatim>\<open>srp.params['2048']\<close>).
\<close>

type_synonym computeVerifier = "Buffer \<Rightarrow> Buffer \<Rightarrow> Buffer \<Rightarrow> Buffer"

definition setPassword :: "computeVerifier \<Rightarrow> entropy \<Rightarrow> User \<Rightarrow> string \<Rightarrow> User" where
  "setPassword computeVerifier rnd this password =
     (let usernameBuffer = Buffer_from (toLowerCase (username this));
          passwordBuffer = Buffer_from password;
          this = this\<lparr>salt := randomBytes 4 rnd\<rparr>
      in this\<lparr>verifier := computeVerifier (salt this) usernameBuffer passwordBuffer\<rparr>)"

text \<open>\<open>addUser\<close>: the access level is optional (\<^verbatim>\<open>access || 'UNVERIFIED'\<close>). The result is the
  new User row and the database with the User and its Profile.\<close>

definition addUser ::
  "computeVerifier \<Rightarrow> entropy \<Rightarrow> DBConn \<Rightarrow> string \<Rightarrow> string \<Rightarrow> string \<Rightarrow> access option
     \<Rightarrow> User \<times> DBConn" where
  "addUser computeVerifier rnd db username' password email' access' =
     (let usernameBuffer = Buffer_from (toLowerCase username');
          passwordBuffer = Buffer_from password;
          salt' = randomBytes 4 rnd;
          verifier' = computeVerifier salt' usernameBuffer passwordBuffer;
          level = (case access' of None \<Rightarrow> UNVERIFIED | Some a \<Rightarrow> a);
          user = \<lparr>User_id = nextId (map User_id (Users db)),
                  username = toLowerCase username', email = email', verifier = verifier',
                  salt = salt', access = level,
                  active = (if level = UNVERIFIED then False else True)\<rparr>;
          profile = \<lparr>Profile_id = nextId (map Profile_id (Profiles db)),
                     Profile_username = username', Profile_UserId = Some (User_id user)\<rparr>
      in (user, db\<lparr>Users := Users db @ [user], Profiles := Profiles db @ [profile]\<rparr>))"

definition findUser :: "DBConn \<Rightarrow> string \<Rightarrow> error + User" where
  "findUser db username' =
     (case find (\<lambda>u. username u = toLowerCase username') (Users db) of
        None \<Rightarrow> Inl (UserNotFound ''User not found'' username')
      | Some data \<Rightarrow> Inr data)"

text \<open>
  The callers that write a stored User row: the \<^verbatim>\<open>userpass\<close> and \<^verbatim>\<open>userlevel\<close> subcommands
  of the administration tool (src/unnamed/part_000) and the "user" form of
  source/webusers.js. A user that is not found makes the assignment to \<^verbatim>\<open>null\<close> a
  TypeError. \<^verbatim>\<open>userpass\<close> draws its password at random; here it is any string. The level
  given to \<^verbatim>\<open>userlevel\<close> has passed \<^verbatim>\<open>access.validLevel\<close>; the form arrives only after
  \<^verbatim>\<open>webform.userForm\<close> has accepted it, and a field that is absent or empty is \<open>None\<close>.
\<close>

definition userpass ::
  "computeVerifier \<Rightarrow> entropy \<Rightarrow> DBConn \<Rightarrow> string \<Rightarrow> string \<Rightarrow> error + DBConn" where
  "userpass computeVerifier rnd db user password =
     (case find (\<lambda>u. username u = toLowerCase user) (Users db) of
        None \<Rightarrow> Inl (TypeError ''Cannot read properties of null'')
      | Some user \<Rightarrow> Inr (User_save db (setPassword computeVerifier rnd user password)))"

definition userlevel :: "DBConn \<Rightarrow> string \<Rightarrow> access \<Rightarrow> error + DBConn" where
  "userlevel db user level =
     (case find (\<lambda>u. username u = toLowerCase user) (Users db) of
        None \<Rightarrow> Inl (TypeError ''Cannot set properties of null'')
      | Some user \<Rightarrow> Inr (User_save db (user\<lparr>access := level\<rparr>)))"

definition editUser ::
  "computeVerifier \<Rightarrow> entropy \<Rightarrow> DBConn \<Rightarrow> string \<Rightarrow> string option \<Rightarrow> string option
     \<Rightarrow> error + DBConn" where
  "editUser computeVerifier rnd db ident password email' =
     (case find (\<lambda>u. username u = toLowerCase ident) (Users db) of
        None \<Rightarrow> Inl (TypeError ''Cannot read properties of null'')
      | Some user \<Rightarrow>
          (let user = (case password of
                         None \<Rightarrow> user
                       | Some pw \<Rightarrow> setPassword computeVerifier rnd user pw);
               user = (case email' of None \<Rightarrow> user | Some e \<Rightarrow> user\<lparr>email := e\<rparr>)
           in Inr (User_save db user)))"

subsection \<open>Sessions\<close>

text \<open>
  \<open>newSession\<close>: \<^verbatim>\<open>Promise.all\<close> starts the user lookup and the creation of the row side
  by side, so the row is created whether or not the user is found; only then is the user
  attached. The result is the outcome of the promise and the database afterwards.
\<close>

definition newSession ::
  "entropy \<Rightarrow> Date \<Rightarrow> DBConn \<Rightarrow> string \<Rightarrow> (error + Session) \<times> DBConn" where
  "newSession rnd now db username' =
     (let user = findUser db username';
          sessionBuffer = randomBytes 4 rnd
      in case readUInt32LE sessionBuffer 0 of
           Inl e \<Rightarrow> (Inl e, db)
         | Inr sessionID \<Rightarrow>
             (let (sess, db) = Session_create db sessionID now
              in case user of
                   Inl e \<Rightarrow> (Inl e, db)
                 | Inr user \<Rightarrow> (let (sess, db) = setUser db sess user in (Inr sess, db))))"

text \<open>\<open>findSession\<close>: \<^verbatim>\<open>findOne\<close> gives the first row with the session id; \<open>now\<close> is
  \<^verbatim>\<open>new Date()\<close>.\<close>

definition findSession :: "Date \<Rightarrow> DBConn \<Rightarrow> nat \<Rightarrow> int \<Rightarrow> error + Session" where
  "findSession now db session' timeout =
     (case find (\<lambda>s. session s = session') (Sessions db) of
        None \<Rightarrow> Inl (SessionNotFound ''Session not found'' session')
      | Some sess \<Rightarrow>
          (let diff = getSecondsBetween (createdAt sess) now
           in if diff > timeout then Inl (Error ''Session has expired'')
              else (case getUser db sess of
                      None \<Rightarrow> Inl (Error ''Session is not attached to User'')
                    | Some user \<Rightarrow>
                        if access user = UNVERIFIED
                        then Inl (Error ''Session belongs to UNVERIFIED User'')
                        else Inr sess)))"

text \<open>
  \<open>setEphemeral\<close> talks to the database twice, with no transaction around the two
  queries. The first query is the \<^verbatim>\<open>findOne\<close> with
  \<^verbatim>\<open>session = ? AND ephemeral IS NULL AND secret IS NULL\<close>, which gives the first such row or
  null.
\<close>

definition setEphemeral_findOne :: "DBConn \<Rightarrow> nat \<Rightarrow> Session option" where
  "setEphemeral_findOne db session' =
     find (\<lambda>s. session s = session' \<and> ephemeral s = None \<and> secret s = None) (Sessions db)"

text \<open>
  The second query is the \<^verbatim>\<open>sess.update\<close> in the \<^verbatim>\<open>then\<close> of the first one; it runs when the
  answer of the first has arrived, on the database as it is by then. A call in flight has
  either not had the answer to its lookup yet, or holds the row the lookup gave it and has
  its update pending, or is settled: rejected with an error or resolved with the row.
\<close>

datatype call =
  Called nat Buffer Buffer
| Updating Session Buffer Buffer
| Settled "error + Session"

text \<open>One query of a call in flight, on the database as it is now.\<close>

fun setEphemeral_step :: "DBConn \<Rightarrow> call \<Rightarrow> call \<times> DBConn" where
  "setEphemeral_step db (Called session' ephemeral' secret') =
     (case setEphemeral_findOne db session' of
        None \<Rightarrow> (Settled (Inl (Error ''Session not found'')), db)
      | Some sess \<Rightarrow> (Updating sess ephemeral' secret', db))"
| "setEphemeral_step db (Updating sess ephemeral' secret') =
     (let (sess', db') = Session_update db sess ephemeral' secret' in (Settled (Inr sess'), db'))"
| "setEphemeral_step db (Settled r) = (Settled r, db)"

text \<open>
  Several calls in flight on one database: the schedule names, query by query, the call
  whose query the database answers next.
\<close>

fun run_calls :: "nat list \<Rightarrow> call list \<Rightarrow> DBConn \<Rightarrow> call list \<times> DBConn" where
  "run_calls [] calls db = (calls, db)"
| "run_calls (i # schedule) calls db =
     (if i < length calls
      then (let (c, db') = setEphemeral_step db (calls ! i)
            in run_calls schedule (calls[i := c]) db')
      else run_calls schedule calls db)"

text \<open>A call of \<open>setEphemeral\<close> that runs alone: nothing happens between its two queries.
  The result is the outcome of the promise and the database afterwards.\<close>

definition setEphemeral ::
  "DBConn \<Rightarrow> nat \<Rightarrow> Buffer \<Rightarrow> Buffer \<Rightarrow> (error + Session) \<times> DBConn" where
  "setEphemeral db session' ephemeral' secret' =
     (case setEphemeral_findOne db session' of
        None \<Rightarrow> (Inl (Error ''Session not found''), db)
      | Some sess \<Rightarrow>
          (let (sess', db') = Session_update db sess ephemeral' secret' in (Inr sess', db')))"

section \<open>Notions used to state the properties\<close>

text \<open>The little-endian bytes of an unsigned 16-bit and of an unsigned 32-bit value, as
  \<open>writeUInt16LE\<close> and \<open>writeUInt32LE\<close> store them.\<close>

definition le16 :: "nat \<Rightarrow> Buffer" where
  "le16 v = [of_nat v, of_nat (v div 2 ^ 8)]"

definition le32 :: "nat \<Rightarrow> Buffer" where
  "le32 v = [of_nat v, of_nat (v div 2 ^ 8), of_nat (v div 2 ^ 16), of_nat (v div 2 ^ 24)]"

text \<open>A well-formed string of the protocol: ASCII characters, none of them NUL.\<close>

definition ascii :: "string \<Rightarrow> bool" where
  "ascii str = list_all (\<lambda>c. 0 < (of_char c :: nat) \<and> (of_char c :: nat) < 128) str"

text \<open>Well-formed packet values: the numbers fit their fields, the version is 1 or 2, the
  strings are well-formed, and the salt, ephemeral and proof are short enough for their
  length fields.\<close>

definition wf_serverNegotiate :: "serverNegotiate \<Rightarrow> bool" where
  "wf_serverNegotiate p \<longleftrightarrow>
     sn_clientSession p < 2 ^ 32 \<and> (sn_version p = 1 \<or> sn_version p = 2) \<and> ascii (sn_username p)"

definition wf_authNegotiate :: "authNegotiate \<Rightarrow> bool" where
  "wf_authNegotiate p \<longleftrightarrow>
     an_clientSession p < 2 ^ 32 \<and> an_session p < 2 ^ 32 \<and> length (an_salt p) < 2 ^ 8
     \<and> ascii (an_username p)"

definition wf_ephemeral :: "ephemeralPacket \<Rightarrow> bool" where
  "wf_ephemeral p \<longleftrightarrow> ep_session p < 2 ^ 32 \<and> length (ep_ephemeral p) < 2 ^ 16"

definition wf_proof :: "proofPacket \<Rightarrow> bool" where
  "wf_proof p \<longleftrightarrow> pp_session p < 2 ^ 32 \<and> length (pp_proof p) < 2 ^ 16"

text \<open>The session id \<open>newSession\<close> reads from the four bytes it draws.\<close>

definition sessionID_of :: "entropy \<Rightarrow> nat" where
  "sessionID_of rnd =
     unat (rnd 0) + unat (rnd 1) * 2 ^ 8 + unat (rnd 2) * 2 ^ 16 + unat (rnd 3) * 2 ^ 24"

text \<open>The pair a password change writes, and what it means for the pair of a User row to
  be consistent: the salt has four bytes and the verifier is the one computed from this
  salt, the lowercased user name and some password.\<close>

definition credentials :: "User \<Rightarrow> Buffer \<times> Buffer" where
  "credentials u = (salt u, verifier u)"

definition credentials_ok :: "computeVerifier \<Rightarrow> User \<Rightarrow> bool" where
  "credentials_ok computeVerifier u \<longleftrightarrow>
     length (salt u) = 4 \<and>
     (\<exists>password. verifier u
        = computeVerifier (salt u) (Buffer_from (toLowerCase (username u))) (Buffer_from password))"

text \<open>The databases that the functions above can produce, starting from the empty one. The
  update of a \<open>setEphemeral\<close> comes right after its lookup or later, on a database that
  other calls have changed in between.\<close>

inductive reachable :: "computeVerifier \<Rightarrow> DBConn \<Rightarrow> bool" for computeVerifier where
  init: "reachable computeVerifier \<lparr>Users = [], Sessions = [], Profiles = []\<rparr>"
| addUser:
    "reachable computeVerifier db \<Longrightarrow>
     reachable computeVerifier (snd (addUser computeVerifier rnd db username' password email' access'))"
| userpass:
    "reachable computeVerifier db \<Longrightarrow> userpass computeVerifier rnd db user password = Inr db' \<Longrightarrow>
     reachable computeVerifier db'"
| userlevel:
    "reachable computeVerifier db \<Longrightarrow> userlevel db user level = Inr db' \<Longrightarrow>
     reachable computeVerifier db'"
| editUser:
    "reachable computeVerifier db \<Longrightarrow>
     editUser computeVerifier rnd db ident password' email' = Inr db' \<Longrightarrow>
     reachable computeVerifier db'"
| newSession:
    "reachable computeVerifier db \<Longrightarrow>
     reachable computeVerifier (snd (newSession rnd now db username'))"
| setEphemeral:
    "reachable computeVerifier db \<Longrightarrow>
     reachable computeVerifier (snd (setEphemeral db session' ephemeral' secret'))"
| setEphemeral_update:
    "reachable computeVerifier db\<^sub>0 \<Longrightarrow> setEphemeral_findOne db\<^sub>0 session' = Some sess \<Longrightarrow>
     reachable computeVerifier db \<Longrightarrow>
     reachable computeVerifier (snd (Session_update db sess ephemeral' secret'))"

section \<open>Example states\<close>

text \<open>A random source whose every byte is 1 and a stand-in for the verifier computation;
  with them, the database after alice has registered as a USER, the database after one
  \<open>newSession\<close> for alice, and the database after two of them that drew the same four
  bytes.\<close>

definition ones :: entropy where
  "ones i = 1"

definition example_verifier :: computeVerifier where
  "example_verifier salt' I P = salt' @ I @ P"

definition alice :: User where
  "alice = fst (addUser example_verifier ones \<lparr>Users = [], Sessions = [], Profiles = []\<rparr>
                  ''alice'' ''secret'' ''alice@example.org'' (Some USER))"

definition example_db :: DBConn where
  "example_db = snd (addUser example_verifier ones \<lparr>Users = [], Sessions = [], Profiles = []\<rparr>
                       ''alice'' ''secret'' ''alice@example.org'' (Some USER))"

definition fresh_db :: DBConn where
  "fresh_db = snd (newSession ones 0 example_db ''alice'')"

definition colliding_db :: DBConn where
  "colliding_db =
     snd (newSession ones 1000 (snd (newSession ones 0 example_db ''alice'')) ''alice'')"

text \<open>A database with the verified user alice and the unverified user bob: session 7
  belongs to bob, session 8 to no user, session 9 to alice; all three were created at
  time 0.\<close>

definition bob :: User where
  "bob = \<lparr>User_id = 2, username = ''bob'', email = ''bob@example.org'', verifier = [],
          salt = [0, 0, 0, 0], access = UNVERIFIED, active = False\<rparr>"

definition unverified_db :: DBConn where
  "unverified_db =
     \<lparr>Users = [alice, bob],
      Sessions = [\<lparr>Session_id = 1, session = 7, ephemeral = None, secret = None,
                   UserId = Some 2, createdAt = 0\<rparr>,
                  \<lparr>Session_id = 2, session = 8, ephemeral = None, secret = None,
                   UserId = None, createdAt = 0\<rparr>,
                  \<lparr>Session_id = 3, session = 9, ephemeral = None, secret = None,
                   UserId = Some 1, createdAt = 0\<rparr>],
      Profiles = []\<rparr>"

text \<open>The database after Alice has registered without an access level.\<close>

definition registered_db :: DBConn where
  "registered_db =
     snd (addUser example_verifier ones \<lparr>Users = [], Sessions = [], Profiles = []\<rparr>
            ''Alice'' ''secret'' ''alice@example.org'' None)"

section \<open>Facts about the Buffer operations\<close>

lemma andThen_Inr: "andThen (Inr v) f = f v"
  by (simp add: andThen_def)

lemma andThen_Inl: "andThen (Inl e) f = Inl e"
  by (simp add: andThen_def)

lemma replicate_numeral: "replicate (numeral k) x = x # replicate (pred_numeral k) x"
  by (simp add: numeral_eq_Suc)

lemma length_le32 [simp]: "length (le32 v) = 4"
  by (simp add: le32_def)

lemma length_le16 [simp]: "length (le16 v) = 2"
  by (simp add: le16_def)

lemma length_Buffer_from [simp]: "length (Buffer_from str) = length str"
  by (simp add: Buffer_from_def)

lemma Buffer_alloc_int: "Buffer_alloc (int n) = Inr (replicate n 0)"
  by (simp add: Buffer_alloc_def)

subsection \<open>Writes\<close>

lemma update_first:
  "off < length buf \<Longrightarrow> buf[off := v] = take off buf @ [v] @ drop (off + 1) buf"
  by (simp add: upd_conv_take_nth_drop)

lemma update_next:
  assumes "off + length bs < length buf"
  shows "(take off buf @ bs @ drop (off + length bs) buf)[off + length bs := v]
         = take off buf @ (bs @ [v]) @ drop (off + (length bs + 1)) buf"
proof -
  have "(drop (off + length bs) buf)[0 := v] = v # drop (Suc (off + length bs)) buf"
    using assms by (simp add: upd_conv_take_nth_drop)
  then show ?thesis
    using assms by (simp add: list_update_append)
qed

lemma writeUInt8_eq:
  "v < 2 ^ 8 \<Longrightarrow> off + 1 \<le> length buf \<Longrightarrow>
   writeUInt8 buf v off = Inr (take off buf @ [of_nat v] @ drop (off + 1) buf)"
  by (simp add: writeUInt8_def upd_conv_take_nth_drop)

lemma writeUInt16LE_eq:
  assumes "v < 2 ^ 16" "off + 2 \<le> length buf"
  shows "writeUInt16LE buf v off = Inr (take off buf @ le16 v @ drop (off + 2) buf)"
proof -
  have "buf[off := a, off + 1 := b] = take off buf @ [a, b] @ drop (off + 2) buf" for a b
    using assms(2) update_next [of off "[a]" buf b] by (simp add: update_first)
  then show ?thesis
    using assms by (simp add: writeUInt16LE_def le16_def)
qed

lemma writeUInt32LE_eq:
  assumes "v < 2 ^ 32" "off + 4 \<le> length buf"
  shows "writeUInt32LE buf v off = Inr (take off buf @ le32 v @ drop (off + 4) buf)"
proof -
  have "buf[off := a, off + 1 := b, off + 2 := c, off + 3 := d]
        = take off buf @ [a, b, c, d] @ drop (off + 4) buf" for a b c d
    using assms(2) update_next [of off "[a]" buf b] update_next [of off "[a, b]" buf c]
      update_next [of off "[a, b, c]" buf d]
    by (simp add: update_first eval_nat_numeral)
  then show ?thesis
    using assms by (simp add: writeUInt32LE_def le32_def)
qed

lemma Buffer_copy_all:
  "n = length src \<Longrightarrow> off + n \<le> length buf \<Longrightarrow>
   Buffer_copy src buf off 0 n = Inr (take off buf @ src @ drop (off + n) buf)"
  by (auto simp add: Buffer_copy_def Let_def min_def)

lemma writeString_eq:
  "off + length str + 1 \<le> length buf \<Longrightarrow>
   writeString buf str off
   = Inr (take off buf @ Buffer_from str @ [0] @ drop (off + length str + 1) buf)"
  by (simp add: writeString_def Let_def Buffer_copy_all andThen_Inr writeUInt8_eq)

subsection \<open>Reads\<close>

lemma le32_value:
  fixes v :: nat
  assumes "v < 2 ^ 32"
  shows "v mod 256 + v div 256 mod 256 * 256 + v div 65536 mod 256 * 65536
         + v div 16777216 mod 256 * 16777216 = v"
proof -
  have q2: "v div 65536 = v div 256 div 256"
    by (simp add: div_mult2_eq [symmetric])
  have q3: "v div 16777216 = v div 256 div 256 div 256"
    by (simp add: div_mult2_eq [symmetric])
  have "v div 16777216 < 256" using assms by simp
  then have a: "v div 256 div 256 div 256 mod 256 = v div 256 div 256 div 256"
    by (simp add: q3)
  have b: "v div 256 div 256 = v div 256 div 256 div 256 * 256 + v div 256 div 256 mod 256"
    by simp
  have c: "v div 256 = v div 256 div 256 * 256 + v div 256 mod 256"
    by simp
  have d: "v = v div 256 * 256 + v mod 256"
    by simp
  show ?thesis unfolding q2 q3 a using b c d by linarith
qed

lemma readUInt32LE_le32: "v < 2 ^ 32 \<Longrightarrow> readUInt32LE (le32 v @ rest) 0 = Inr v"
  using le32_value [of v] by (simp add: readUInt32LE_def le32_def unat_of_nat)

lemma readUInt16LE_le16: "v < 2 ^ 16 \<Longrightarrow> readUInt16LE (le16 v @ rest) 0 = Inr v"
  by (simp add: readUInt16LE_def le16_def unat_of_nat)

lemma readInt16LE_le16:
  "v < 2 ^ 16 \<Longrightarrow>
   readInt16LE (le16 v @ rest) 0 = Inr (if 2 ^ 15 \<le> v then int v - 2 ^ 16 else int v)"
  by (simp add: readInt16LE_def le16_def unat_of_nat)

lemma readUInt8_byte: "readUInt8 (b # rest) 0 = Inr (unat b)"
  by (simp add: readUInt8_def)

lemma readUInt32LE_drop: "readUInt32LE buf off = readUInt32LE (drop off buf) 0"
proof (cases "off + 4 \<le> length buf")
  case True
  then show ?thesis by (simp add: readUInt32LE_def)
next
  case False
  then show ?thesis by (simp add: readUInt32LE_def)
qed

lemma readUInt16LE_drop: "readUInt16LE buf off = readUInt16LE (drop off buf) 0"
proof (cases "off + 2 \<le> length buf")
  case True
  then show ?thesis by (simp add: readUInt16LE_def)
next
  case False
  then show ?thesis by (simp add: readUInt16LE_def)
qed

lemma readInt16LE_drop: "readInt16LE buf off = readInt16LE (drop off buf) 0"
proof (cases "off + 2 \<le> length buf")
  case True
  then have "2 \<le> length buf - off" by simp
  with True show ?thesis by (simp add: readInt16LE_def Let_def)
next
  case False
  then have "\<not> 2 \<le> length buf - off" by simp
  with False show ?thesis by (simp add: readInt16LE_def)
qed

lemma readUInt8_drop: "readUInt8 buf off = readUInt8 (drop off buf) 0"
proof (cases "off + 1 \<le> length buf")
  case True
  then show ?thesis by (simp add: readUInt8_def)
next
  case False
  then show ?thesis by (simp add: readUInt8_def)
qed

lemma Buffer_copy_out:
  "off \<le> length buf \<Longrightarrow>
   Buffer_copy buf (replicate n 0) 0 off (off + n)
   = Inr (take n (drop off buf) @ replicate (n - (length buf - off)) 0)"
  by (auto simp add: Buffer_copy_def Let_def min_def)

subsection \<open>Strings\<close>

lemma unat_byte_of_char [simp]: "unat (of_nat (of_char c) :: byte) = of_char c"
  by (simp add: unat_of_nat)

lemma byte_of_char_eq_0: "(of_nat (of_char c) :: byte) = 0 \<longleftrightarrow> (of_char c :: nat) = 0"
  by (metis unat_byte_of_char unat_eq_zero)

lemma ascii_no_zero: "ascii str \<Longrightarrow> 0 \<notin> set (Buffer_from str)"
  by (induction str) (auto simp add: ascii_def Buffer_from_def byte_of_char_eq_0)

lemma ascii_decode:
  "ascii str \<Longrightarrow> map (\<lambda>b. char_of (unat b mod 128)) (Buffer_from str) = str"
  by (induction str) (auto simp add: ascii_def Buffer_from_def)

lemma takeWhile_until_zero:
  "(0 :: byte) \<notin> set xs \<Longrightarrow> takeWhile (\<lambda>b. b \<noteq> 0) (xs @ 0 # rest) = xs"
  by (induction xs) auto

lemma readString_eq:
  "readString buf off =
     (if 0 \<in> set (drop off buf)
      then Inr (map (\<lambda>b. char_of (unat b mod 128)) (takeWhile (\<lambda>b. b \<noteq> 0) (drop off buf)))
      else Inl (TypeError ''Null-terminator not found in buffer''))"
  by (simp add: readString_def Buffer_indexOf0_def Buffer_toString_def Let_def
      nat_int_add takeWhile_eq_take [symmetric])

lemma readString_ascii:
  "ascii str \<Longrightarrow> readString (Buffer_from str @ 0 # rest) 0 = Inr str"
  by (simp add: readString_eq ascii_no_zero ascii_decode takeWhile_until_zero)

lemma readString_drop: "readString buf off = readString (drop off buf) 0"
  by (simp add: readString_eq)

lemmas read_drop_numeral =
  readUInt32LE_drop [of _ "numeral k"] readUInt16LE_drop [of _ "numeral k"]
  readInt16LE_drop [of _ "numeral k"] readUInt8_drop [of _ "numeral k"]
  readString_drop [of _ "numeral k"] for k

subsection \<open>The magic numbers fit 32 bits\<close>

lemma magic_bounds:
  "SERVER_NEGOTIATE < 4294967296" "AUTH_NEGOTIATE < 4294967296"
  "SERVER_EPHEMERAL < 4294967296" "AUTH_EPHEMERAL < 4294967296"
  "SERVER_PROOF < 4294967296" "AUTH_PROOF < 4294967296"
  "ERROR_USER < 4294967296" "ERROR_CLIENTSESSION < 4294967296" "ERROR_SESSION < 4294967296"
  by (simp_all add: SERVER_NEGOTIATE_def AUTH_NEGOTIATE_def SERVER_EPHEMERAL_def
      AUTH_EPHEMERAL_def SERVER_PROOF_def AUTH_PROOF_def ERROR_USER_def
      ERROR_CLIENTSESSION_def ERROR_SESSION_def)

section \<open>The wire format of marshalled packets\<close>

lemma serverNegotiate_marshall_eq:
  "sn_clientSession p < 2 ^ 32 \<Longrightarrow> sn_version p < 2 ^ 8 \<Longrightarrow>
   serverNegotiate_marshall p =
     Inr (le32 SERVER_NEGOTIATE @ [of_nat (sn_version p)] @ le32 (sn_clientSession p)
          @ Buffer_from (sn_username p) @ [0])"
  unfolding serverNegotiate_marshall_def Buffer_alloc_int andThen_Inr Buffer_byteLength_def
  by (simp add: andThen_Inr writeUInt32LE_eq writeUInt8_eq writeString_eq magic_bounds)

lemma serverEphemeral_marshall_eq:
  "ep_session p < 2 ^ 32 \<Longrightarrow> length (ep_ephemeral p) < 2 ^ 16 \<Longrightarrow>
   serverEphemeral_marshall p =
     Inr (le32 SERVER_EPHEMERAL @ le32 (ep_session p) @ le16 (length (ep_ephemeral p))
          @ ep_ephemeral p)"
  unfolding serverEphemeral_marshall_def Buffer_alloc_int andThen_Inr
  by (simp add: andThen_Inr writeUInt32LE_eq writeUInt16LE_eq Buffer_copy_all magic_bounds)

lemma authEphemeral_marshall_eq:
  "ep_session p < 2 ^ 32 \<Longrightarrow> length (ep_ephemeral p) < 2 ^ 16 \<Longrightarrow>
   authEphemeral_marshall p =
     Inr (le32 AUTH_EPHEMERAL @ le32 (ep_session p) @ le16 (length (ep_ephemeral p))
          @ ep_ephemeral p)"
  unfolding authEphemeral_marshall_def Buffer_alloc_int andThen_Inr
  by (simp add: andThen_Inr writeUInt32LE_eq writeUInt16LE_eq Buffer_copy_all magic_bounds)

lemma serverProof_marshall_eq:
  "pp_session p < 2 ^ 32 \<Longrightarrow> length (pp_proof p) < 2 ^ 16 \<Longrightarrow>
   serverProof_marshall p =
     Inr (le32 SERVER_PROOF @ le32 (pp_session p) @ le16 (length (pp_proof p)) @ pp_proof p)"
  unfolding serverProof_marshall_def Buffer_alloc_int andThen_Inr
  by (simp add: andThen_Inr writeUInt32LE_eq writeUInt16LE_eq Buffer_copy_all magic_bounds)

lemma authProof_marshall_eq:
  "pp_session p < 2 ^ 32 \<Longrightarrow> length (pp_proof p) < 2 ^ 16 \<Longrightarrow>
   authProof_marshall p =
     Inr (le32 AUTH_PROOF @ le32 (pp_session p) @ le16 (length (pp_proof p)) @ pp_proof p)"
  unfolding authProof_marshall_def Buffer_alloc_int andThen_Inr
  by (simp add: andThen_Inr writeUInt32LE_eq writeUInt16LE_eq Buffer_copy_all magic_bounds)

lemma Buffer_copy_into:
  "length pre = off \<Longrightarrow> length old = length src \<Longrightarrow>
   Buffer_copy src (pre @ old @ post) off 0 (length src) = Inr (pre @ src @ post)"
  by (simp add: Buffer_copy_all)

lemma writeString_into:
  "length pre = off \<Longrightarrow> length old = length str + 1 \<Longrightarrow>
   writeString (pre @ old @ post) str off = Inr (pre @ Buffer_from str @ [0] @ post)"
  by (simp add: writeString_eq)

lemma readString_after: "length pre = off \<Longrightarrow> readString (pre @ rest) off = readString rest 0"
  by (simp add: readString_eq)

lemma authNegotiate_marshall_eq:
  assumes "an_clientSession p < 2 ^ 32" "an_session p < 2 ^ 32" "length (an_salt p) < 2 ^ 8"
  shows "authNegotiate_marshall p =
     Inr (le32 AUTH_NEGOTIATE @ [1] @ le32 (an_clientSession p) @ le32 (an_session p)
          @ [of_nat (length (an_salt p))] @ an_salt p @ Buffer_from (an_username p) @ [0])"
proof -
  define hdr where "hdr = le32 AUTH_NEGOTIATE @ [1] @ le32 (an_clientSession p)
    @ le32 (an_session p) @ [of_nat (length (an_salt p))]"
  have len: "length hdr = 14"
    by (simp add: hdr_def)
  have alloc: "replicate (14 + length (an_salt p) + length (an_username p) + 1) (0 :: byte)
      = replicate 14 0 @ replicate (length (an_salt p)) 0
        @ replicate (length (an_username p) + 1) 0"
    by (simp only: replicate_add append_assoc)
  have fixed: "andThen (writeUInt32LE (replicate 14 0 @ rest) AUTH_NEGOTIATE 0) (\<lambda>buf.
     andThen (writeUInt8 buf 1 4) (\<lambda>buf.
     andThen (writeUInt32LE buf (an_clientSession p) 5) (\<lambda>buf.
     andThen (writeUInt32LE buf (an_session p) 9) (\<lambda>buf.
     andThen (writeUInt8 buf (length (an_salt p)) 13) f)))) = f (hdr @ rest)" for rest f
    using assms
    by (simp add: andThen_Inr writeUInt32LE_eq writeUInt8_eq magic_bounds hdr_def)
  have copy: "Buffer_copy (an_salt p)
      (hdr @ replicate (length (an_salt p)) 0 @ replicate (length (an_username p) + 1) 0)
      14 0 (length (an_salt p))
      = Inr (hdr @ an_salt p @ replicate (length (an_username p) + 1) 0)"
    using len by (simp add: Buffer_copy_into)
  have str: "writeString (hdr @ an_salt p @ replicate (length (an_username p) + 1) 0)
      (an_username p) (14 + length (an_salt p))
      = Inr (hdr @ an_salt p @ Buffer_from (an_username p) @ [0])"
    using writeString_into [of "hdr @ an_salt p" "14 + length (an_salt p)"
        "replicate (length (an_username p) + 1) 0" "an_username p" "[]"] len
    by simp
  show ?thesis
    unfolding authNegotiate_marshall_def Buffer_alloc_int andThen_Inr Buffer_byteLength_def
      alloc fixed copy str
    by (simp add: hdr_def)
qed

section \<open>The round trip of well-formed packets\<close>

lemma serverNegotiate_roundtrip:
  "wf_serverNegotiate p \<Longrightarrow>
   andThen (serverNegotiate_marshall p) serverNegotiate_unmarshall = Inr p"
  by (auto simp add: wf_serverNegotiate_def serverNegotiate_marshall_eq andThen_Inr
      serverNegotiate_unmarshall_def read_drop_numeral readUInt32LE_le32 readUInt8_byte
      magic_bounds readString_ascii unat_of_nat)

lemma authNegotiate_roundtrip:
  assumes "wf_authNegotiate p"
  shows "andThen (authNegotiate_marshall p) authNegotiate_unmarshall = Inr p"
proof -
  define hdr where "hdr = le32 AUTH_NEGOTIATE @ [1] @ le32 (an_clientSession p)
    @ le32 (an_session p) @ [of_nat (length (an_salt p))]"
  define w where "w = hdr @ an_salt p @ Buffer_from (an_username p) @ [0]"
  have wf: "an_clientSession p < 2 ^ 32" "an_session p < 2 ^ 32" "length (an_salt p) < 2 ^ 8"
    "ascii (an_username p)"
    using assms by (simp_all add: wf_authNegotiate_def)
  have len: "length hdr = 14"
    by (simp add: hdr_def)
  have m: "authNegotiate_marshall p = Inr w"
    using wf by (simp add: authNegotiate_marshall_eq w_def hdr_def)
  have r0: "readUInt32LE w 0 = Inr AUTH_NEGOTIATE"
    by (simp add: w_def hdr_def readUInt32LE_le32 magic_bounds)
  have r4: "readUInt8 w 4 = Inr 1"
    by (simp add: w_def hdr_def read_drop_numeral readUInt8_byte)
  have r5: "readUInt32LE w 5 = Inr (an_clientSession p)"
    using wf by (simp add: w_def hdr_def read_drop_numeral readUInt32LE_le32)
  have r9: "readUInt32LE w 9 = Inr (an_session p)"
    using wf by (simp add: w_def hdr_def read_drop_numeral readUInt32LE_le32)
  have r13: "readUInt8 w 13 = Inr (length (an_salt p))"
    using wf by (simp add: w_def hdr_def read_drop_numeral readUInt8_byte unat_of_nat)
  have "drop 14 w = an_salt p @ Buffer_from (an_username p) @ [0]"
    using len by (simp add: w_def)
  moreover have "14 \<le> length w"
    using len by (simp add: w_def)
  ultimately have copy: "Buffer_copy w (replicate (length (an_salt p)) 0) 0 14
      (14 + length (an_salt p)) = Inr (an_salt p)"
    by (simp add: Buffer_copy_out w_def len)
  have rs: "readString w (14 + length (an_salt p)) = Inr (an_username p)"
    using readString_after [of "hdr @ an_salt p" "14 + length (an_salt p)"
        "Buffer_from (an_username p) @ [0]"] len wf(4)
    by (simp add: w_def readString_ascii)
  show ?thesis
    unfolding m andThen_Inr authNegotiate_unmarshall_def r0 r4 r13 Buffer_alloc_int copy r5 r9 rs
    by simp
qed

lemma serverEphemeral_roundtrip:
  "wf_ephemeral p \<Longrightarrow>
   andThen (serverEphemeral_marshall p) serverEphemeral_unmarshall = Inr p"
  by (simp add: wf_ephemeral_def serverEphemeral_marshall_eq andThen_Inr
      serverEphemeral_unmarshall_def read_drop_numeral readUInt32LE_le32 readUInt16LE_le16
      magic_bounds Buffer_alloc_int Buffer_copy_out)

lemma authEphemeral_roundtrip:
  "wf_ephemeral p \<Longrightarrow>
   andThen (authEphemeral_marshall p) authEphemeral_unmarshall = Inr p"
  by (simp add: wf_ephemeral_def authEphemeral_marshall_eq andThen_Inr
      authEphemeral_unmarshall_def read_drop_numeral readUInt32LE_le32 readUInt16LE_le16
      magic_bounds Buffer_alloc_int Buffer_copy_out)

lemma serverProof_roundtrip:
  "wf_proof p \<Longrightarrow>
   andThen (serverProof_marshall p) serverProof_unmarshall = Inr p"
  by (simp add: wf_proof_def serverProof_marshall_eq andThen_Inr
      serverProof_unmarshall_def read_drop_numeral readUInt32LE_le32 readUInt16LE_le16
      magic_bounds Buffer_alloc_int Buffer_copy_out)

lemma authProof_roundtrip:
  "wf_proof p \<Longrightarrow>
   andThen (authProof_marshall p) authProof_unmarshall
   = (if length (pp_proof p) < 2 ^ 15 then Inr p else Inl RangeError)"
  by (simp add: wf_proof_def authProof_marshall_eq andThen_Inr
      authProof_unmarshall_def read_drop_numeral readUInt32LE_le32 readInt16LE_le16
      magic_bounds Buffer_alloc_int Buffer_copy_out Buffer_alloc_def andThen_Inl nat_add_distrib)

text \<open>
  Unmarshalling what marshall produced gives the packet back, for every well-formed packet
  of SERVER_NEGOTIATE, AUTH_NEGOTIATE, SERVER_EPHEMERAL, AUTH_EPHEMERAL and SERVER_PROOF,
  and for every well-formed AUTH_PROOF whose proof is shorter than 0x8000 bytes; for a
  longer proof the AUTH_PROOF round trip is a RangeError.
\<close>

theorem codec_roundtrip:
  "(wf_serverNegotiate sn \<longrightarrow>
      andThen (serverNegotiate_marshall sn) serverNegotiate_unmarshall = Inr sn)
   \<and> (wf_authNegotiate an \<longrightarrow>
      andThen (authNegotiate_marshall an) authNegotiate_unmarshall = Inr an)
   \<and> (wf_ephemeral ep \<longrightarrow>
      andThen (serverEphemeral_marshall ep) serverEphemeral_unmarshall = Inr ep
      \<and> andThen (authEphemeral_marshall ep) authEphemeral_unmarshall = Inr ep)
   \<and> (wf_proof pp \<longrightarrow>
      andThen (serverProof_marshall pp) serverProof_unmarshall = Inr pp
      \<and> andThen (authProof_marshall pp) authProof_unmarshall
          = (if length (pp_proof pp) < 2 ^ 15 then Inr pp else Inl RangeError))"
  using serverNegotiate_roundtrip [of sn] authNegotiate_roundtrip [of an]
    serverEphemeral_roundtrip [of ep] authEphemeral_roundtrip [of ep]
    serverProof_roundtrip [of pp] authProof_roundtrip [of pp]
  by blast

theorem codec_roundtrip_witness:
  "andThen (serverNegotiate_marshall
       \<lparr>sn_clientSession = 0x11223344, sn_username = ''alice'', sn_version = 2\<rparr>)
     serverNegotiate_unmarshall
     = Inr \<lparr>sn_clientSession = 0x11223344, sn_username = ''alice'', sn_version = 2\<rparr>
   \<and> andThen (authNegotiate_marshall
       \<lparr>an_clientSession = 0x11223344, an_session = 7, an_salt = [1, 2, 3, 4],
        an_username = ''alice''\<rparr>)
     authNegotiate_unmarshall
     = Inr \<lparr>an_clientSession = 0x11223344, an_session = 7, an_salt = [1, 2, 3, 4],
            an_username = ''alice''\<rparr>
   \<and> andThen (serverEphemeral_marshall \<lparr>ep_session = 7, ep_ephemeral = [1, 2, 3]\<rparr>)
     serverEphemeral_unmarshall = Inr \<lparr>ep_session = 7, ep_ephemeral = [1, 2, 3]\<rparr>
   \<and> andThen (authEphemeral_marshall \<lparr>ep_session = 7, ep_ephemeral = [1, 2, 3]\<rparr>)
     authEphemeral_unmarshall = Inr \<lparr>ep_session = 7, ep_ephemeral = [1, 2, 3]\<rparr>
   \<and> andThen (serverProof_marshall \<lparr>pp_session = 7, pp_proof = [4, 5]\<rparr>)
     serverProof_unmarshall = Inr \<lparr>pp_session = 7, pp_proof = [4, 5]\<rparr>
   \<and> andThen (authProof_marshall \<lparr>pp_session = 7, pp_proof = [4, 5]\<rparr>)
     authProof_unmarshall = Inr \<lparr>pp_session = 7, pp_proof = [4, 5]\<rparr>"
  using codec_roundtrip
    [of "\<lparr>sn_clientSession = 0x11223344, sn_username = ''alice'', sn_version = 2\<rparr>"
        "\<lparr>an_clientSession = 0x11223344, an_session = 7, an_salt = [1, 2, 3, 4],
         an_username = ''alice''\<rparr>"
        "\<lparr>ep_session = 7, ep_ephemeral = [1, 2, 3]\<rparr>"
        "\<lparr>pp_session = 7, pp_proof = [4, 5]\<rparr>"]
  by (simp add: wf_serverNegotiate_def wf_authNegotiate_def wf_ephemeral_def wf_proof_def
      ascii_def)

section \<open>The length of an AUTH_PROOF proof is written unsigned and read signed\<close>

text \<open>
  C3. The claim is that the proof length of AUTH_PROOF is an unsigned 16-bit integer in
  both directions. \<open>authProof_marshall\<close> writes it with \<open>writeUInt16LE\<close>, but
  \<open>authProof_unmarshall\<close> reads it with \<open>readInt16LE\<close>: the length field 0x8000 of the
  ten bytes below is read as -32768, and allocating the proof is a RangeError, where
  \<open>readUInt16LE\<close> reads 32768 and \<open>serverProof_unmarshall\<close>, given the same bytes under
  its own magic, returns a proof of 32768 bytes.
\<close>

theorem authProof_unmarshall_reads_signed_length:
  "readInt16LE [0x30, 0xCA, 0x03, 0xD0, 0, 0, 0, 0, 0x00, 0x80] 8 = Inr (- 32768)
   \<and> readUInt16LE [0x30, 0xCA, 0x03, 0xD0, 0, 0, 0, 0, 0x00, 0x80] 8 = Inr 32768
   \<and> authProof_unmarshall [0x30, 0xCA, 0x03, 0xD0, 0, 0, 0, 0, 0x00, 0x80] = Inl RangeError
   \<and> serverProof_unmarshall [0x03, 0xCA, 0x03, 0xD0, 0, 0, 0, 0, 0x00, 0x80]
       = Inr \<lparr>pp_session = 0, pp_proof = replicate 32768 0\<rparr>"
  by (simp add: authProof_unmarshall_def serverProof_unmarshall_def readUInt32LE_def
      readInt16LE_def readUInt16LE_def AUTH_PROOF_def SERVER_PROOF_def andThen_def
      Buffer_alloc_def Buffer_copy_def)

section \<open>An AUTH_PROOF with a long proof does not survive the round trip\<close>

text \<open>
  C1. The claim is that unmarshalling what marshall produced gives the packet back, for
  the six packet kinds and in particular for an AUTH_PROOF whose proof has 0x8000 bytes
  or more. The AUTH_PROOF packet with session 0 and a proof of 32768 zero bytes is
  marshalled without error, and unmarshalling the result is a RangeError.
\<close>

theorem authProof_roundtrip_fails_on_long_proof:
  "andThen (authProof_marshall \<lparr>pp_session = 0, pp_proof = replicate 32768 0\<rparr>)
     authProof_unmarshall = Inl RangeError"
  by (simp add: authProof_marshall_eq andThen_Inr authProof_unmarshall_def
      read_drop_numeral readUInt32LE_le32 readInt16LE_le16 magic_bounds Buffer_alloc_def
      andThen_Inl)

section \<open>Which buffers the decoders reject\<close>

lemma isl_andThen: "isl (andThen m f) \<longleftrightarrow> isl m \<or> (\<exists>v. m = Inr v \<and> isl (f v))"
  by (cases m) (simp_all add: andThen_def)

lemma isl_readUInt32LE: "isl (readUInt32LE buf off) \<longleftrightarrow> length buf < off + 4"
  by (auto simp add: readUInt32LE_def)

lemma isl_readUInt16LE: "isl (readUInt16LE buf off) \<longleftrightarrow> length buf < off + 2"
  by (auto simp add: readUInt16LE_def)

lemma isl_readInt16LE: "isl (readInt16LE buf off) \<longleftrightarrow> length buf < off + 2"
  by (auto simp add: readInt16LE_def Let_def)

lemma isl_readUInt8: "isl (readUInt8 buf off) \<longleftrightarrow> length buf < off + 1"
  by (auto simp add: readUInt8_def)

lemma isl_readString: "isl (readString buf off) \<longleftrightarrow> 0 \<notin> set (drop off buf)"
  by (simp add: readString_eq)

lemma andThen_eq_Inr: "andThen m f = Inr r \<longleftrightarrow> (\<exists>v. m = Inr v \<and> f v = Inr r)"
  by (cases m) (simp_all add: andThen_def)

lemmas read_defs = readUInt32LE_def readUInt16LE_def readInt16LE_def readUInt8_def
  readString_eq andThen_def SERVER_NEGOTIATE_def AUTH_NEGOTIATE_def SERVER_EPHEMERAL_def
  AUTH_EPHEMERAL_def SERVER_PROOF_def AUTH_PROOF_def ERROR_USER_def ERROR_CLIENTSESSION_def
  ERROR_SESSION_def

section \<open>The error packets of the two protocol versions share a magic\<close>

lemma userError_marshall_eq:
  "ue_error p < 2 ^ 8 \<Longrightarrow>
   userError_marshall p =
     Inr (le32 ERROR_USER @ [of_nat (ue_error p)] @ Buffer_from (ue_username p) @ [0])"
  unfolding userError_marshall_def Buffer_alloc_int andThen_Inr Buffer_byteLength_def
  by (simp add: andThen_Inr writeUInt32LE_eq writeUInt8_eq writeString_eq magic_bounds)

lemma Buffer_alloc_9: "Buffer_alloc 9 = Inr (replicate 9 0)"
  by (simp add: Buffer_alloc_def)

lemma clientSessionError_marshall_eq:
  "ce_error p < 2 ^ 8 \<Longrightarrow> ce_clientSession p < 2 ^ 32 \<Longrightarrow>
   clientSessionError_marshall p =
     Inr (le32 ERROR_CLIENTSESSION @ [of_nat (ce_error p)] @ le32 (ce_clientSession p))"
  unfolding clientSessionError_marshall_def Buffer_alloc_9 andThen_Inr
  by (simp add: andThen_Inr writeUInt32LE_eq writeUInt8_eq magic_bounds)

lemma sessionError_marshall_eq:
  "se_error p < 2 ^ 8 \<Longrightarrow> se_session p < 2 ^ 32 \<Longrightarrow>
   sessionError_marshall p =
     Inr (le32 ERROR_SESSION @ [of_nat (se_error p)] @ le32 (se_session p))"
  unfolding sessionError_marshall_def Buffer_alloc_9 andThen_Inr
  by (simp add: andThen_Inr writeUInt32LE_eq writeUInt8_eq magic_bounds)

lemma same_magic: "ERROR_USER = ERROR_CLIENTSESSION"
  by (simp add: ERROR_USER_def ERROR_CLIENTSESSION_def)

lemma userError_as_clientSessionError:
  assumes "ue_error p < 2 ^ 8"
  shows "isl (andThen (userError_marshall p) clientSessionError_unmarshall)
         \<longleftrightarrow> length (ue_username p) < 3"
  using assms
  by (auto simp add: userError_marshall_eq andThen_Inr clientSessionError_unmarshall_def
      read_drop_numeral readUInt32LE_le32 magic_bounds same_magic isl_andThen
      isl_readUInt32LE isl_readUInt8)

lemma clientSessionError_as_userError:
  assumes "ce_error p < 2 ^ 8" "ce_clientSession p < 2 ^ 32"
  shows "isl (andThen (clientSessionError_marshall p) userError_unmarshall)
         \<longleftrightarrow> 0 \<notin> set (le32 (ce_clientSession p))"
  using assms
  by (auto simp add: clientSessionError_marshall_eq andThen_Inr userError_unmarshall_def
      read_drop_numeral readUInt32LE_le32 magic_bounds same_magic [symmetric] isl_andThen
      readUInt8_byte isl_readString)

text \<open>
  C10, as the code has it. ERROR_USER and ERROR_CLIENTSESSION are the same number. The
  bytes \<open>userError_marshall\<close> produces are accepted by \<open>clientSessionError_unmarshall\<close>
  exactly when the user name has at least three characters (its bytes and terminator then
  fill the four bytes read as the client session), and the nine bytes
  \<open>clientSessionError_marshall\<close> produces are accepted by \<open>userError_unmarshall\<close> exactly
  when one of the four bytes of the client session is zero (it is then taken for the
  terminator of the user name).
\<close>

theorem error_magics_coincide:
  "ERROR_USER = ERROR_CLIENTSESSION
   \<and> (ue_error ue < 2 ^ 8 \<longrightarrow>
        (isl (andThen (userError_marshall ue) clientSessionError_unmarshall)
         \<longleftrightarrow> length (ue_username ue) < 3))
   \<and> (ce_error ce < 2 ^ 8 \<and> ce_clientSession ce < 2 ^ 32 \<longrightarrow>
        (isl (andThen (clientSessionError_marshall ce) userError_unmarshall)
         \<longleftrightarrow> 0 \<notin> set (le32 (ce_clientSession ce))))"
  using same_magic userError_as_clientSessionError [of ue]
    clientSessionError_as_userError [of ce]
  by blast

theorem error_magics_coincide_witness:
  "\<not> isl (andThen (userError_marshall \<lparr>ue_error = 1, ue_username = ''alice''\<rparr>)
            clientSessionError_unmarshall)
   \<and> \<not> isl (andThen (clientSessionError_marshall \<lparr>ce_clientSession = 5, ce_error = 1\<rparr>)
            userError_unmarshall)"
  using error_magics_coincide
    [of "\<lparr>ue_error = 1, ue_username = ''alice''\<rparr>" "\<lparr>ce_clientSession = 5, ce_error = 1\<rparr>"]
  by (simp add: le32_def)

text \<open>
  C10, as the claim states it, fails in both directions: the user error for the user "ab"
  is a packet of eight bytes, too short for \<open>clientSessionError_unmarshall\<close>, and the
  client session error for the client session 0x01010101 has no zero byte for
  \<open>userError_unmarshall\<close> to end the user name at.
\<close>

theorem short_userError_is_no_clientSessionError:
  "andThen (userError_marshall \<lparr>ue_error = 1, ue_username = ''ab''\<rparr>)
     clientSessionError_unmarshall = Inl RangeError
   \<and> andThen (clientSessionError_marshall \<lparr>ce_clientSession = 0x01010101, ce_error = 1\<rparr>)
     userError_unmarshall = Inl (TypeError ''Null-terminator not found in buffer'')"
  by (simp add: userError_marshall_eq clientSessionError_marshall_eq andThen_Inr
      clientSessionError_unmarshall_def userError_unmarshall_def
      read_drop_numeral readUInt32LE_le32 magic_bounds same_magic [symmetric]
      readUInt8_byte readString_eq andThen_Inl)
    (simp add: le32_def readUInt32LE_def Buffer_from_def andThen_Inl)

section \<open>The layout of SERVER_NEGOTIATE\<close>

lemma readString_v1_eq: "readString_v1 buf off = readString buf off"
  by (simp add: readString_v1_def readString_def)

lemma serverNegotiate_unmarshall_Inr:
  "serverNegotiate_unmarshall buf = Inr p \<longleftrightarrow>
     readUInt32LE buf 0 = Inr SERVER_NEGOTIATE
     \<and> (sn_version p = 1 \<or> sn_version p = 2)
     \<and> readUInt8 buf 4 = Inr (sn_version p)
     \<and> readUInt32LE buf 5 = Inr (sn_clientSession p)
     \<and> readString buf 9 = Inr (sn_username p)"
  by (cases "readUInt32LE buf 0"; cases "readUInt8 buf 4"; cases "readUInt32LE buf 5";
      cases "readString buf 9"; cases p)
    (auto simp add: serverNegotiate_unmarshall_def andThen_def)

lemma serverNegotiate_v1_unmarshall_layout:
  "ascii name \<Longrightarrow>
   serverNegotiate_v1_unmarshall (le32 SERVER_NEGOTIATE @ [1] @ Buffer_from name @ [0])
   = Inr \<lparr>sn1_username = name\<rparr>"
  by (simp add: serverNegotiate_v1_unmarshall_def read_drop_numeral readUInt32LE_le32
      magic_bounds andThen_Inr readUInt8_byte readString_v1_eq readString_ascii)

lemma serverNegotiate_v1_unmarshall_Inr:
  "serverNegotiate_v1_unmarshall buf = Inr q \<longleftrightarrow>
     readUInt32LE buf 0 = Inr SERVER_NEGOTIATE
     \<and> readUInt8 buf 4 = Inr 1
     \<and> readString_v1 buf 5 = Inr (sn1_username q)"
  by (cases "readUInt32LE buf 0"; cases "readUInt8 buf 4"; cases "readString_v1 buf 5"; cases q)
    (auto simp add: serverNegotiate_v1_unmarshall_def andThen_def)

lemma serverNegotiate_v1_unmarshall_rejects:
  "readUInt8 buf 4 \<noteq> Inr 1 \<Longrightarrow> isl (serverNegotiate_v1_unmarshall buf)"
  using serverNegotiate_v1_unmarshall_Inr [of buf]
  by (cases "serverNegotiate_v1_unmarshall buf") auto

text \<open>
  C4, as the code has it. \<open>serverNegotiate_unmarshall\<close> accepts the versions 1 and 2 and
  reads both in one layout: a buffer decodes to a packet exactly when it starts with the
  magic, its byte 4 is the version 1 or 2, the client session is the number at offset 5
  and the user name is the string at offset 9. The layout magic, 1, user name is the one of
  the version 1 codec, which reads the user name at offset 5: it decodes the packet made
  of the magic, the byte 1, an ASCII user name and NUL to that user name; it decodes a
  buffer exactly when the buffer starts with the magic, its byte 4 is 1 and a string
  stands at offset 5; so it rejects every buffer whose byte 4 is not 1, version 2 among
  them.
\<close>

theorem serverNegotiate_one_layout:
  "(serverNegotiate_unmarshall buf = Inr p \<longleftrightarrow>
      readUInt32LE buf 0 = Inr SERVER_NEGOTIATE
      \<and> (sn_version p = 1 \<or> sn_version p = 2)
      \<and> readUInt8 buf 4 = Inr (sn_version p)
      \<and> readUInt32LE buf 5 = Inr (sn_clientSession p)
      \<and> readString buf 9 = Inr (sn_username p))
   \<and> (ascii name \<longrightarrow>
      serverNegotiate_v1_unmarshall (le32 SERVER_NEGOTIATE @ [1] @ Buffer_from name @ [0])
      = Inr \<lparr>sn1_username = name\<rparr>)
   \<and> (serverNegotiate_v1_unmarshall buf = Inr q \<longleftrightarrow>
      readUInt32LE buf 0 = Inr SERVER_NEGOTIATE
      \<and> readUInt8 buf 4 = Inr 1
      \<and> readString_v1 buf 5 = Inr (sn1_username q))
   \<and> (readUInt8 buf 4 \<noteq> Inr 1 \<longrightarrow> isl (serverNegotiate_v1_unmarshall buf))"
  using serverNegotiate_unmarshall_Inr [of buf p] serverNegotiate_v1_unmarshall_layout [of name]
    serverNegotiate_v1_unmarshall_Inr [of buf q] serverNegotiate_v1_unmarshall_rejects [of buf]
  by blast

theorem serverNegotiate_one_layout_witness:
  "serverNegotiate_unmarshall [0x01, 0xCA, 0x03, 0xD0, 1, 0x44, 0x33, 0x22, 0x11, 0x61, 0]
     = Inr \<lparr>sn_clientSession = 0x11223344, sn_username = ''a'', sn_version = 1\<rparr>
   \<and> serverNegotiate_v1_unmarshall (le32 SERVER_NEGOTIATE @ [1] @ Buffer_from ''alice'' @ [0])
     = Inr \<lparr>sn1_username = ''alice''\<rparr>
   \<and> isl (serverNegotiate_v1_unmarshall
            [0x01, 0xCA, 0x03, 0xD0, 2, 0x44, 0x33, 0x22, 0x11, 0x61, 0])"
proof -
  have "ascii ''alice''"
    by (simp add: ascii_def)
  moreover have "readUInt8 [0x01, 0xCA, 0x03, 0xD0, 2, 0x44, 0x33, 0x22, 0x11, 0x61, 0] 4 \<noteq> Inr 1"
    by (simp add: read_defs)
  then have "isl (serverNegotiate_v1_unmarshall
                    [0x01, 0xCA, 0x03, 0xD0, 2, 0x44, 0x33, 0x22, 0x11, 0x61, 0])"
    using serverNegotiate_one_layout
      [of "[0x01, 0xCA, 0x03, 0xD0, 2, 0x44, 0x33, 0x22, 0x11, 0x61, 0]"]
    by blast
  moreover have "readUInt32LE [0x01, 0xCA, 0x03, 0xD0, 1, 0x44, 0x33, 0x22, 0x11, 0x61, 0] 0
      = Inr SERVER_NEGOTIATE"
    by (simp add: read_defs)
  moreover have "readUInt8 [0x01, 0xCA, 0x03, 0xD0, 1, 0x44, 0x33, 0x22, 0x11, 0x61, 0] 4 = Inr 1"
    by (simp add: read_defs)
  moreover have "readUInt32LE [0x01, 0xCA, 0x03, 0xD0, 1, 0x44, 0x33, 0x22, 0x11, 0x61, 0] 5
      = Inr 0x11223344"
    by (simp add: read_defs)
  moreover have "readString [0x01, 0xCA, 0x03, 0xD0, 1, 0x44, 0x33, 0x22, 0x11, 0x61, 0] 9
      = Inr ''a''"
    by (simp add: read_defs char_of_eq_iff)
  ultimately show ?thesis
    using serverNegotiate_one_layout
      [of "[0x01, 0xCA, 0x03, 0xD0, 1, 0x44, 0x33, 0x22, 0x11, 0x61, 0]"
          "\<lparr>sn_clientSession = 0x11223344, sn_username = ''a'', sn_version = 1\<rparr>" "''alice''"]
    by simp
qed

text \<open>
  C4, as the claim states it, fails: the version 1 packet for the user "alice" (magic, 1,
  "alice", NUL) is decoded by \<open>serverNegotiate_unmarshall\<close> with the client session read
  from the bytes of "alic" and the user name "e"; the version 1 codec reads "alice".
\<close>

theorem serverNegotiate_version_1_layout_misread:
  "serverNegotiate_unmarshall [0x01, 0xCA, 0x03, 0xD0, 1, 0x61, 0x6C, 0x69, 0x63, 0x65, 0]
     = Inr \<lparr>sn_clientSession = 0x63696C61, sn_username = ''e'', sn_version = 1\<rparr>
   \<and> serverNegotiate_v1_unmarshall [0x01, 0xCA, 0x03, 0xD0, 1, 0x61, 0x6C, 0x69, 0x63, 0x65, 0]
     = Inr \<lparr>sn1_username = ''alice''\<rparr>"
  by (simp add: serverNegotiate_unmarshall_def serverNegotiate_v1_unmarshall_def
      readString_v1_eq read_defs char_of_eq_iff)

section \<open>Malformed buffers\<close>

lemma wrong_magic:
  assumes "readUInt32LE buf 0 \<noteq> Inr magic"
  shows "isl (andThen (readUInt32LE buf 0) (\<lambda>m. if m \<noteq> magic then Inl e else f m))"
  using assms by (cases "readUInt32LE buf 0") (simp_all add: andThen_def)

lemma unmarshall_wrong_magic:
  "readUInt32LE buf 0 \<noteq> Inr SERVER_NEGOTIATE \<Longrightarrow> isl (serverNegotiate_unmarshall buf)"
  "readUInt32LE buf 0 \<noteq> Inr AUTH_NEGOTIATE \<Longrightarrow> isl (authNegotiate_unmarshall buf)"
  "readUInt32LE buf 0 \<noteq> Inr SERVER_EPHEMERAL \<Longrightarrow> isl (serverEphemeral_unmarshall buf)"
  "readUInt32LE buf 0 \<noteq> Inr AUTH_EPHEMERAL \<Longrightarrow> isl (authEphemeral_unmarshall buf)"
  "readUInt32LE buf 0 \<noteq> Inr SERVER_PROOF \<Longrightarrow> isl (serverProof_unmarshall buf)"
  "readUInt32LE buf 0 \<noteq> Inr AUTH_PROOF \<Longrightarrow> isl (authProof_unmarshall buf)"
  unfolding serverNegotiate_unmarshall_def authNegotiate_unmarshall_def
    serverEphemeral_unmarshall_def authEphemeral_unmarshall_def serverProof_unmarshall_def
    authProof_unmarshall_def
  by (rule wrong_magic, assumption)+

lemma isl_andThenI: "(\<And>v. isl (f v)) \<Longrightarrow> isl (andThen m f)"
  by (cases m) (simp_all add: andThen_def)

lemma isl_andThen_first: "isl m \<Longrightarrow> isl (andThen m f)"
  by (cases m) (simp_all add: andThen_def)

lemma isl_ifI: "isl x \<Longrightarrow> isl (if c then Inl e else x)"
  by simp

lemma isl_andThen_reject:
  "(\<And>v. m = Inr v \<Longrightarrow> c v) \<Longrightarrow> isl (andThen m (\<lambda>v. if c v then Inl e else f v))"
  by (cases m) (simp_all add: andThen_def)

lemma serverNegotiate_truncated: "length buf < 9 \<Longrightarrow> isl (serverNegotiate_unmarshall buf)"
  unfolding serverNegotiate_unmarshall_def
  apply (rule isl_andThenI, rule isl_ifI, rule isl_andThenI, rule isl_ifI)
  apply (rule isl_andThen_first)
  apply (simp add: isl_readUInt32LE)
  done

lemma authNegotiate_truncated: "length buf < 14 \<Longrightarrow> isl (authNegotiate_unmarshall buf)"
  unfolding authNegotiate_unmarshall_def
  apply (rule isl_andThenI, rule isl_ifI, rule isl_andThenI, rule isl_ifI)
  apply (rule isl_andThen_first)
  apply (simp add: isl_readUInt8)
  done

lemma serverEphemeral_truncated: "length buf < 10 \<Longrightarrow> isl (serverEphemeral_unmarshall buf)"
  unfolding serverEphemeral_unmarshall_def
  apply (rule isl_andThenI, rule isl_ifI)
  apply (rule isl_andThen_first)
  apply (simp add: isl_readUInt16LE)
  done

lemma authEphemeral_truncated: "length buf < 10 \<Longrightarrow> isl (authEphemeral_unmarshall buf)"
  unfolding authEphemeral_unmarshall_def
  apply (rule isl_andThenI, rule isl_ifI)
  apply (rule isl_andThen_first)
  apply (simp add: isl_readUInt16LE)
  done

lemma serverProof_truncated: "length buf < 10 \<Longrightarrow> isl (serverProof_unmarshall buf)"
  unfolding serverProof_unmarshall_def
  apply (rule isl_andThenI, rule isl_ifI)
  apply (rule isl_andThen_first)
  apply (simp add: isl_readUInt16LE)
  done

lemma authProof_truncated: "length buf < 10 \<Longrightarrow> isl (authProof_unmarshall buf)"
  unfolding authProof_unmarshall_def
  apply (rule isl_andThenI, rule isl_ifI)
  apply (rule isl_andThen_first)
  apply (simp add: isl_readInt16LE)
  done

lemma serverNegotiate_unknown_version:
  "readUInt8 buf 4 \<noteq> Inr 1 \<Longrightarrow> readUInt8 buf 4 \<noteq> Inr 2 \<Longrightarrow>
   isl (serverNegotiate_unmarshall buf)"
  unfolding serverNegotiate_unmarshall_def
  apply (rule isl_andThenI, rule isl_ifI)
  apply (rule isl_andThen_reject)
  apply auto
  done

lemma authNegotiate_unknown_version:
  "readUInt8 buf 4 \<noteq> Inr 1 \<Longrightarrow> isl (authNegotiate_unmarshall buf)"
  unfolding authNegotiate_unmarshall_def
  apply (rule isl_andThenI, rule isl_ifI)
  apply (rule isl_andThen_reject)
  apply auto
  done

lemma serverNegotiate_no_terminator:
  "0 \<notin> set (drop 9 buf) \<Longrightarrow> isl (serverNegotiate_unmarshall buf)"
  unfolding serverNegotiate_unmarshall_def
  apply (rule isl_andThenI, rule isl_ifI, rule isl_andThenI, rule isl_ifI, rule isl_andThenI)
  apply (rule isl_andThen_first)
  apply (simp add: isl_readString)
  done

lemma authNegotiate_no_terminator:
  "readUInt8 buf 13 = Inr n \<Longrightarrow> 0 \<notin> set (drop (14 + n) buf) \<Longrightarrow>
   isl (authNegotiate_unmarshall buf)"
  unfolding authNegotiate_unmarshall_def
  apply (rule isl_andThenI, rule isl_ifI, rule isl_andThenI, rule isl_ifI)
  apply (simp add: andThen_Inr)
  apply (rule isl_andThenI, rule isl_andThenI, rule isl_andThenI, rule isl_andThenI)
  apply (rule isl_andThen_first)
  apply (simp add: isl_readString)
  done

lemma serverEphemeral_unmarshall_pads:
  assumes "10 \<le> length buf" "readUInt32LE buf 0 = Inr SERVER_EPHEMERAL"
  shows "\<exists>s n. readUInt32LE buf 4 = Inr s \<and> readUInt16LE buf 8 = Inr n
           \<and> serverEphemeral_unmarshall buf
             = Inr \<lparr>ep_session = s,
                    ep_ephemeral = take n (drop 10 buf) @ replicate (n - (length buf - 10)) 0\<rparr>"
proof -
  obtain s where s: "readUInt32LE buf 4 = Inr s"
    using assms(1) by (simp add: readUInt32LE_def)
  obtain n where n: "readUInt16LE buf 8 = Inr n"
    using assms(1) by (simp add: readUInt16LE_def)
  show ?thesis
    using assms s n
    by (simp add: serverEphemeral_unmarshall_def andThen_Inr Buffer_alloc_int Buffer_copy_out)
qed

lemma authEphemeral_unmarshall_pads:
  assumes "10 \<le> length buf" "readUInt32LE buf 0 = Inr AUTH_EPHEMERAL"
  shows "\<exists>s n. readUInt32LE buf 4 = Inr s \<and> readUInt16LE buf 8 = Inr n
           \<and> authEphemeral_unmarshall buf
             = Inr \<lparr>ep_session = s,
                    ep_ephemeral = take n (drop 10 buf) @ replicate (n - (length buf - 10)) 0\<rparr>"
proof -
  obtain s where s: "readUInt32LE buf 4 = Inr s"
    using assms(1) by (simp add: readUInt32LE_def)
  obtain n where n: "readUInt16LE buf 8 = Inr n"
    using assms(1) by (simp add: readUInt16LE_def)
  show ?thesis
    using assms s n
    by (simp add: authEphemeral_unmarshall_def andThen_Inr Buffer_alloc_int Buffer_copy_out)
qed

lemma serverProof_unmarshall_pads:
  assumes "10 \<le> length buf" "readUInt32LE buf 0 = Inr SERVER_PROOF"
  shows "\<exists>s n. readUInt32LE buf 4 = Inr s \<and> readUInt16LE buf 8 = Inr n
           \<and> serverProof_unmarshall buf
             = Inr \<lparr>pp_session = s,
                    pp_proof = take n (drop 10 buf) @ replicate (n - (length buf - 10)) 0\<rparr>"
proof -
  obtain s where s: "readUInt32LE buf 4 = Inr s"
    using assms(1) by (simp add: readUInt32LE_def)
  obtain n where n: "readUInt16LE buf 8 = Inr n"
    using assms(1) by (simp add: readUInt16LE_def)
  show ?thesis
    using assms s n
    by (simp add: serverProof_unmarshall_def andThen_Inr Buffer_alloc_int Buffer_copy_out)
qed

text \<open>
  C2, as the code has it. Each of the six packet decoders fails with an error on a buffer
  that does not start with its magic (a buffer of less than four bytes included) and on a
  buffer shorter than its fixed-width fields; the two negotiation decoders also fail on an
  unknown version and on a string without terminator. A length field that exceeds the
  bytes left is no error: every buffer of at least ten bytes with the SERVER_EPHEMERAL,
  AUTH_EPHEMERAL or SERVER_PROOF magic is decoded, to an ephemeral or proof of the
  announced length made of the bytes that are there, followed by zeros.
\<close>

theorem unmarshall_rejects:
  "(readUInt32LE buf 0 \<noteq> Inr SERVER_NEGOTIATE \<or> length buf < 9
      \<or> (readUInt8 buf 4 \<noteq> Inr 1 \<and> readUInt8 buf 4 \<noteq> Inr 2) \<or> 0 \<notin> set (drop 9 buf)
      \<longrightarrow> isl (serverNegotiate_unmarshall buf))
   \<and> (readUInt32LE buf 0 \<noteq> Inr AUTH_NEGOTIATE \<or> length buf < 14
      \<or> readUInt8 buf 4 \<noteq> Inr 1
      \<or> (\<exists>n. readUInt8 buf 13 = Inr n \<and> 0 \<notin> set (drop (14 + n) buf))
      \<longrightarrow> isl (authNegotiate_unmarshall buf))
   \<and> (readUInt32LE buf 0 \<noteq> Inr SERVER_EPHEMERAL \<or> length buf < 10
      \<longrightarrow> isl (serverEphemeral_unmarshall buf))
   \<and> (readUInt32LE buf 0 \<noteq> Inr AUTH_EPHEMERAL \<or> length buf < 10
      \<longrightarrow> isl (authEphemeral_unmarshall buf))
   \<and> (readUInt32LE buf 0 \<noteq> Inr SERVER_PROOF \<or> length buf < 10
      \<longrightarrow> isl (serverProof_unmarshall buf))
   \<and> (readUInt32LE buf 0 \<noteq> Inr AUTH_PROOF \<or> length buf < 10
      \<longrightarrow> isl (authProof_unmarshall buf))
   \<and> (10 \<le> length buf \<and> readUInt32LE buf 0 = Inr SERVER_EPHEMERAL
      \<longrightarrow> (\<exists>s n. readUInt32LE buf 4 = Inr s \<and> readUInt16LE buf 8 = Inr n
            \<and> serverEphemeral_unmarshall buf
              = Inr \<lparr>ep_session = s,
                     ep_ephemeral = take n (drop 10 buf) @ replicate (n - (length buf - 10)) 0\<rparr>))
   \<and> (10 \<le> length buf \<and> readUInt32LE buf 0 = Inr AUTH_EPHEMERAL
      \<longrightarrow> (\<exists>s n. readUInt32LE buf 4 = Inr s \<and> readUInt16LE buf 8 = Inr n
            \<and> authEphemeral_unmarshall buf
              = Inr \<lparr>ep_session = s,
                     ep_ephemeral = take n (drop 10 buf) @ replicate (n - (length buf - 10)) 0\<rparr>))
   \<and> (10 \<le> length buf \<and> readUInt32LE buf 0 = Inr SERVER_PROOF
      \<longrightarrow> (\<exists>s n. readUInt32LE buf 4 = Inr s \<and> readUInt16LE buf 8 = Inr n
            \<and> serverProof_unmarshall buf
              = Inr \<lparr>pp_session = s,
                     pp_proof = take n (drop 10 buf) @ replicate (n - (length buf - 10)) 0\<rparr>))"
proof -
  have sn: "readUInt32LE buf 0 \<noteq> Inr SERVER_NEGOTIATE \<or> length buf < 9
      \<or> (readUInt8 buf 4 \<noteq> Inr 1 \<and> readUInt8 buf 4 \<noteq> Inr 2) \<or> 0 \<notin> set (drop 9 buf)
      \<longrightarrow> isl (serverNegotiate_unmarshall buf)"
    using unmarshall_wrong_magic(1) [of buf] serverNegotiate_truncated [of buf]
      serverNegotiate_unknown_version [of buf] serverNegotiate_no_terminator [of buf]
    by blast
  have an: "readUInt32LE buf 0 \<noteq> Inr AUTH_NEGOTIATE \<or> length buf < 14
      \<or> readUInt8 buf 4 \<noteq> Inr 1
      \<or> (\<exists>n. readUInt8 buf 13 = Inr n \<and> 0 \<notin> set (drop (14 + n) buf))
      \<longrightarrow> isl (authNegotiate_unmarshall buf)"
    using unmarshall_wrong_magic(2) [of buf] authNegotiate_truncated [of buf]
      authNegotiate_unknown_version [of buf] authNegotiate_no_terminator [of buf]
    by blast
  have se: "readUInt32LE buf 0 \<noteq> Inr SERVER_EPHEMERAL \<or> length buf < 10
      \<longrightarrow> isl (serverEphemeral_unmarshall buf)"
    using unmarshall_wrong_magic(3) [of buf] serverEphemeral_truncated [of buf] by blast
  have ae: "readUInt32LE buf 0 \<noteq> Inr AUTH_EPHEMERAL \<or> length buf < 10
      \<longrightarrow> isl (authEphemeral_unmarshall buf)"
    using unmarshall_wrong_magic(4) [of buf] authEphemeral_truncated [of buf] by blast
  have sp: "readUInt32LE buf 0 \<noteq> Inr SERVER_PROOF \<or> length buf < 10
      \<longrightarrow> isl (serverProof_unmarshall buf)"
    using unmarshall_wrong_magic(5) [of buf] serverProof_truncated [of buf] by blast
  have ap: "readUInt32LE buf 0 \<noteq> Inr AUTH_PROOF \<or> length buf < 10
      \<longrightarrow> isl (authProof_unmarshall buf)"
    using unmarshall_wrong_magic(6) [of buf] authProof_truncated [of buf] by blast
  have pad: "10 \<le> length buf \<and> readUInt32LE buf 0 = Inr SERVER_EPHEMERAL
      \<longrightarrow> (\<exists>s n. readUInt32LE buf 4 = Inr s \<and> readUInt16LE buf 8 = Inr n
            \<and> serverEphemeral_unmarshall buf
              = Inr \<lparr>ep_session = s,
                     ep_ephemeral = take n (drop 10 buf) @ replicate (n - (length buf - 10)) 0\<rparr>)"
    using serverEphemeral_unmarshall_pads [of buf] by blast
  have pad_ae: "10 \<le> length buf \<and> readUInt32LE buf 0 = Inr AUTH_EPHEMERAL
      \<longrightarrow> (\<exists>s n. readUInt32LE buf 4 = Inr s \<and> readUInt16LE buf 8 = Inr n
            \<and> authEphemeral_unmarshall buf
              = Inr \<lparr>ep_session = s,
                     ep_ephemeral = take n (drop 10 buf) @ replicate (n - (length buf - 10)) 0\<rparr>)"
    using authEphemeral_unmarshall_pads [of buf] by blast
  have pad_sp: "10 \<le> length buf \<and> readUInt32LE buf 0 = Inr SERVER_PROOF
      \<longrightarrow> (\<exists>s n. readUInt32LE buf 4 = Inr s \<and> readUInt16LE buf 8 = Inr n
            \<and> serverProof_unmarshall buf
              = Inr \<lparr>pp_session = s,
                     pp_proof = take n (drop 10 buf) @ replicate (n - (length buf - 10)) 0\<rparr>)"
    using serverProof_unmarshall_pads [of buf] by blast
  from sn an se ae sp ap pad pad_ae pad_sp show ?thesis
    by (intro conjI)
qed

theorem unmarshall_rejects_witness:
  "isl (serverNegotiate_unmarshall []) \<and> isl (authNegotiate_unmarshall [])
   \<and> isl (serverEphemeral_unmarshall []) \<and> isl (authEphemeral_unmarshall [])
   \<and> isl (serverProof_unmarshall []) \<and> isl (authProof_unmarshall [])
   \<and> isl (serverNegotiate_unmarshall [0x01, 0xCA, 0x03, 0xD0, 3, 0, 0, 0, 0, 0x61, 0])
   \<and> isl (serverNegotiate_unmarshall [0x01, 0xCA, 0x03, 0xD0, 2, 1, 1, 1, 1, 0x61])
   \<and> isl (authNegotiate_unmarshall [0x10, 0xCA, 0x03, 0xD0, 2, 0, 0, 0, 0, 0, 0, 0, 0, 0, 0x61, 0])
   \<and> isl (authNegotiate_unmarshall [0x10, 0xCA, 0x03, 0xD0, 1, 1, 1, 1, 1, 1, 1, 1, 1, 1, 9, 0x61])
   \<and> isl (serverEphemeral_unmarshall [0x20, 0xCA, 0x03, 0xD0, 0, 0, 0, 0, 0, 0])
   \<and> serverEphemeral_unmarshall [0x02, 0xCA, 0x03, 0xD0, 7, 0, 0, 0, 2, 0, 1, 2]
     = Inr \<lparr>ep_session = 7, ep_ephemeral = [1, 2]\<rparr>
   \<and> authEphemeral_unmarshall [0x20, 0xCA, 0x03, 0xD0, 7, 0, 0, 0, 2, 0, 1, 2]
     = Inr \<lparr>ep_session = 7, ep_ephemeral = [1, 2]\<rparr>
   \<and> serverProof_unmarshall [0x03, 0xCA, 0x03, 0xD0, 7, 0, 0, 0, 2, 0, 1, 2]
     = Inr \<lparr>pp_session = 7, pp_proof = [1, 2]\<rparr>"
proof -
  note T = unmarshall_rejects
  have 0: "isl (serverNegotiate_unmarshall []) \<and> isl (authNegotiate_unmarshall [])
      \<and> isl (serverEphemeral_unmarshall []) \<and> isl (authEphemeral_unmarshall [])
      \<and> isl (serverProof_unmarshall []) \<and> isl (authProof_unmarshall [])"
    using T [of "[]"] by simp
  have 1: "isl (serverNegotiate_unmarshall [0x01, 0xCA, 0x03, 0xD0, 3, 0, 0, 0, 0, 0x61, 0])"
    using T [of "[0x01, 0xCA, 0x03, 0xD0, 3, 0, 0, 0, 0, 0x61, 0]", THEN conjunct1]
    by (simp add: readUInt8_def)
  have 2: "isl (serverNegotiate_unmarshall [0x01, 0xCA, 0x03, 0xD0, 2, 1, 1, 1, 1, 0x61])"
    using T [of "[0x01, 0xCA, 0x03, 0xD0, 2, 1, 1, 1, 1, 0x61]", THEN conjunct1]
    by simp
  have 3: "isl (authNegotiate_unmarshall
      [0x10, 0xCA, 0x03, 0xD0, 2, 0, 0, 0, 0, 0, 0, 0, 0, 0, 0x61, 0])"
    using T [of "[0x10, 0xCA, 0x03, 0xD0, 2, 0, 0, 0, 0, 0, 0, 0, 0, 0, 0x61, 0]",
        THEN conjunct2, THEN conjunct1]
    by (simp add: readUInt8_def)
  have "readUInt8 [0x10, 0xCA, 0x03, 0xD0, 1, 1, 1, 1, 1, 1, 1, 1, 1, 1, 9, 0x61] 13 = Inr 1
      \<and> 0 \<notin> set (drop (14 + 1) [0x10 :: byte, 0xCA, 0x03, 0xD0, 1, 1, 1, 1, 1, 1, 1, 1, 1, 1, 9, 0x61])"
    by (simp add: readUInt8_def)
  then have 4: "isl (authNegotiate_unmarshall
      [0x10, 0xCA, 0x03, 0xD0, 1, 1, 1, 1, 1, 1, 1, 1, 1, 1, 9, 0x61])"
    using T [of "[0x10, 0xCA, 0x03, 0xD0, 1, 1, 1, 1, 1, 1, 1, 1, 1, 1, 9, 0x61]",
        THEN conjunct2, THEN conjunct1]
    by blast
  have "readUInt32LE [0x20, 0xCA, 0x03, 0xD0, 0, 0, 0, 0, 0, 0] 0 \<noteq> Inr SERVER_EPHEMERAL"
    by (simp add: readUInt32LE_def SERVER_EPHEMERAL_def)
  then have 5: "isl (serverEphemeral_unmarshall [0x20, 0xCA, 0x03, 0xD0, 0, 0, 0, 0, 0, 0])"
    using T [of "[0x20, 0xCA, 0x03, 0xD0, 0, 0, 0, 0, 0, 0]"] by blast
  have "10 \<le> length [0x02 :: byte, 0xCA, 0x03, 0xD0, 7, 0, 0, 0, 2, 0, 1, 2]
      \<and> readUInt32LE [0x02, 0xCA, 0x03, 0xD0, 7, 0, 0, 0, 2, 0, 1, 2] 0 = Inr SERVER_EPHEMERAL"
    by (simp add: readUInt32LE_def SERVER_EPHEMERAL_def)
  then obtain s n where "readUInt32LE [0x02, 0xCA, 0x03, 0xD0, 7, 0, 0, 0, 2, 0, 1, 2] 4 = Inr s"
      and "readUInt16LE [0x02, 0xCA, 0x03, 0xD0, 7, 0, 0, 0, 2, 0, 1, 2] 8 = Inr n"
      and r: "serverEphemeral_unmarshall [0x02, 0xCA, 0x03, 0xD0, 7, 0, 0, 0, 2, 0, 1, 2]
            = Inr \<lparr>ep_session = s,
                   ep_ephemeral = take n (drop 10 [0x02, 0xCA, 0x03, 0xD0, 7, 0, 0, 0, 2, 0, 1, 2])
                     @ replicate (n - (length [0x02 :: byte, 0xCA, 0x03, 0xD0, 7, 0, 0, 0, 2, 0, 1, 2]
                                       - 10)) 0\<rparr>"
    using T [of "[0x02, 0xCA, 0x03, 0xD0, 7, 0, 0, 0, 2, 0, 1, 2]"] by blast
  then have "s = 7" and "n = 2"
    by (simp_all add: readUInt32LE_def readUInt16LE_def)
  with r have 6: "serverEphemeral_unmarshall [0x02, 0xCA, 0x03, 0xD0, 7, 0, 0, 0, 2, 0, 1, 2]
      = Inr \<lparr>ep_session = 7, ep_ephemeral = [1, 2]\<rparr>"
    by simp
  have "10 \<le> length [0x20 :: byte, 0xCA, 0x03, 0xD0, 7, 0, 0, 0, 2, 0, 1, 2]
      \<and> readUInt32LE [0x20, 0xCA, 0x03, 0xD0, 7, 0, 0, 0, 2, 0, 1, 2] 0 = Inr AUTH_EPHEMERAL"
    by (simp add: readUInt32LE_def AUTH_EPHEMERAL_def)
  then obtain s7 n7 where "readUInt32LE [0x20, 0xCA, 0x03, 0xD0, 7, 0, 0, 0, 2, 0, 1, 2] 4 = Inr s7"
      and "readUInt16LE [0x20, 0xCA, 0x03, 0xD0, 7, 0, 0, 0, 2, 0, 1, 2] 8 = Inr n7"
      and r7: "authEphemeral_unmarshall [0x20, 0xCA, 0x03, 0xD0, 7, 0, 0, 0, 2, 0, 1, 2]
            = Inr \<lparr>ep_session = s7,
                   ep_ephemeral = take n7 (drop 10 [0x20, 0xCA, 0x03, 0xD0, 7, 0, 0, 0, 2, 0, 1, 2])
                     @ replicate (n7 - (length [0x20 :: byte, 0xCA, 0x03, 0xD0, 7, 0, 0, 0, 2, 0, 1, 2]
                                       - 10)) 0\<rparr>"
    using T [of "[0x20, 0xCA, 0x03, 0xD0, 7, 0, 0, 0, 2, 0, 1, 2]"] by blast
  then have "s7 = 7" and "n7 = 2"
    by (simp_all add: readUInt32LE_def readUInt16LE_def)
  with r7 have 7: "authEphemeral_unmarshall [0x20, 0xCA, 0x03, 0xD0, 7, 0, 0, 0, 2, 0, 1, 2]
      = Inr \<lparr>ep_session = 7, ep_ephemeral = [1, 2]\<rparr>"
    by simp
  have "10 \<le> length [0x03 :: byte, 0xCA, 0x03, 0xD0, 7, 0, 0, 0, 2, 0, 1, 2]
      \<and> readUInt32LE [0x03, 0xCA, 0x03, 0xD0, 7, 0, 0, 0, 2, 0, 1, 2] 0 = Inr SERVER_PROOF"
    by (simp add: readUInt32LE_def SERVER_PROOF_def)
  then obtain s8 n8 where "readUInt32LE [0x03, 0xCA, 0x03, 0xD0, 7, 0, 0, 0, 2, 0, 1, 2] 4 = Inr s8"
      and "readUInt16LE [0x03, 0xCA, 0x03, 0xD0, 7, 0, 0, 0, 2, 0, 1, 2] 8 = Inr n8"
      and r8: "serverProof_unmarshall [0x03, 0xCA, 0x03, 0xD0, 7, 0, 0, 0, 2, 0, 1, 2]
            = Inr \<lparr>pp_session = s8,
                   pp_proof = take n8 (drop 10 [0x03, 0xCA, 0x03, 0xD0, 7, 0, 0, 0, 2, 0, 1, 2])
                     @ replicate (n8 - (length [0x03 :: byte, 0xCA, 0x03, 0xD0, 7, 0, 0, 0, 2, 0, 1, 2]
                                       - 10)) 0\<rparr>"
    using T [of "[0x03, 0xCA, 0x03, 0xD0, 7, 0, 0, 0, 2, 0, 1, 2]"] by blast
  then have "s8 = 7" and "n8 = 2"
    by (simp_all add: readUInt32LE_def readUInt16LE_def)
  with r8 have 8: "serverProof_unmarshall [0x03, 0xCA, 0x03, 0xD0, 7, 0, 0, 0, 2, 0, 1, 2]
      = Inr \<lparr>pp_session = 7, pp_proof = [1, 2]\<rparr>"
    by simp
  from 0 1 2 3 4 5 6 7 8 show ?thesis
    by (intro conjI) (simp_all only:)
qed

text \<open>
  C2, as the claim states it, fails: in the SERVER_EPHEMERAL buffer below the length field
  is 5 and two bytes follow it, and \<open>serverEphemeral_unmarshall\<close> returns a packet, whose
  ephemeral is the two bytes and three zeros.
\<close>

theorem serverEphemeral_unmarshall_accepts_long_length:
  "readUInt16LE [0x02, 0xCA, 0x03, 0xD0, 7, 0, 0, 0, 5, 0, 1, 2] 8 = Inr 5
   \<and> serverEphemeral_unmarshall [0x02, 0xCA, 0x03, 0xD0, 7, 0, 0, 0, 5, 0, 1, 2]
     = Inr \<lparr>ep_session = 7, ep_ephemeral = [1, 2, 0, 0, 0]\<rparr>"
  by (simp add: serverEphemeral_unmarshall_def read_defs Buffer_alloc_def Buffer_copy_def
      replicate_numeral)

section \<open>Facts about the database\<close>

lemma fold_max_ge: "(a :: nat) \<le> fold max ids a"
  by (induction ids arbitrary: a) (auto intro: order_trans [OF max.cobounded2])

lemma fold_max_mem: "x \<in> set ids \<Longrightarrow> (x :: nat) \<le> fold max ids a"
proof (induction ids arbitrary: a)
  case Nil
  then show ?case by simp
next
  case (Cons y ids)
  show ?case
  proof (cases "x = y")
    case True
    have "y \<le> max y a" by simp
    also have "\<dots> \<le> fold max ids (max y a)" by (rule fold_max_ge)
    finally show ?thesis using True by simp
  next
    case False
    with Cons show ?thesis by simp
  qed
qed

lemma nextId_fresh: "x \<in> set ids \<Longrightarrow> x \<noteq> nextId ids"
  using fold_max_mem [of x ids 0] by (auto simp add: nextId_def)

lemma randomBytes_4: "randomBytes 4 rnd = [rnd 0, rnd 1, rnd 2, rnd 3]"
  by (simp add: randomBytes_def eval_nat_numeral)

lemma length_randomBytes [simp]: "length (randomBytes n rnd) = n"
  by (simp add: randomBytes_def)

lemma find_Some_mem: "find P xs = Some x \<Longrightarrow> x \<in> set xs \<and> P x"
  by (induction xs) (auto split: if_splits)

lemma list_all_find: "list_all P xs \<Longrightarrow> find Q xs = Some x \<Longrightarrow> P x"
  using find_Some_mem [of Q xs x] by (simp add: list_all_iff)

lemma find_filter: "find P xs = (case filter P xs of [] \<Rightarrow> None | x # _ \<Rightarrow> Some x)"
  by (induction xs) auto

lemma filter_conj_eq: "filter (\<lambda>s. P s \<and> Q s) xs = filter Q (filter P xs)"
  by (induction xs) auto

lemmas db_defs = newSession_def findUser_def randomBytes_4 readUInt32LE_def
  Session_create_def setUser_def Session_save_def nextId_def Let_def
  setEphemeral_def setEphemeral_findOne_def Session_update_def findSession_def getUser_def
  getSecondsBetween_def ToInt32_def

lemma toLowerCase_alice:
  "toLowerCase ''Alice'' = ''alice''" "toLowerCase ''ALICE'' = ''alice''"
  "toLowerCase ''alice'' = ''alice''"
  by (simp_all add: toLowerCase_def char_of_eq_iff)

lemma alice_eq:
  "alice = \<lparr>User_id = 1, username = ''alice'', email = ''alice@example.org'',
            verifier = [1, 1, 1, 1] @ Buffer_from ''alice'' @ Buffer_from ''secret'',
            salt = [1, 1, 1, 1], access = USER, active = True\<rparr>"
  by (simp add: alice_def addUser_def Let_def randomBytes_4 ones_def nextId_def
      toLowerCase_alice example_verifier_def)

lemma example_db_eq:
  "example_db =
     \<lparr>Users = [alice], Sessions = [],
      Profiles = [\<lparr>Profile_id = 1, Profile_username = ''alice'', Profile_UserId = Some 1\<rparr>]\<rparr>"
  by (simp add: example_db_def alice_def addUser_def Let_def nextId_def)

lemma fresh_db_eq:
  "fresh_db =
     \<lparr>Users = [alice],
      Sessions = [\<lparr>Session_id = 1, session = 16843009, ephemeral = None, secret = None,
                   UserId = Some 1, createdAt = 0\<rparr>],
      Profiles = [\<lparr>Profile_id = 1, Profile_username = ''alice'', Profile_UserId = Some 1\<rparr>]\<rparr>"
  by (simp add: fresh_db_def example_db_eq alice_eq ones_def db_defs toLowerCase_alice)

lemma colliding_db_eq:
  "colliding_db =
     \<lparr>Users = [alice],
      Sessions = [\<lparr>Session_id = 1, session = 16843009, ephemeral = None, secret = None,
                   UserId = Some 1, createdAt = 0\<rparr>,
                  \<lparr>Session_id = 2, session = 16843009, ephemeral = None, secret = None,
                   UserId = Some 1, createdAt = 1000\<rparr>],
      Profiles = [\<lparr>Profile_id = 1, Profile_username = ''alice'', Profile_UserId = Some 1\<rparr>]\<rparr>"
  by (simp add: colliding_db_def example_db_eq alice_eq ones_def db_defs toLowerCase_alice)

section \<open>Session creation draws an id and stores it unchecked\<close>

lemma Session_save_fresh:
  assumes fresh: "Session_id sess \<notin> Session_id ` set (Sessions db)"
  shows "Sessions (Session_save (db\<lparr>Sessions := Sessions db @ [sess]\<rparr>) (sess\<lparr>UserId := u\<rparr>))
         = Sessions db @ [sess\<lparr>UserId := u\<rparr>]"
proof -
  have "map (\<lambda>s. if Session_id s = Session_id sess then sess\<lparr>UserId := u\<rparr> else s) (Sessions db)
        = Sessions db"
  proof (rule map_idI)
    fix x assume "x \<in> set (Sessions db)"
    then have "Session_id x \<in> Session_id ` set (Sessions db)" by (rule imageI)
    with fresh have "Session_id x \<noteq> Session_id sess" by auto
    then show "(if Session_id x = Session_id sess then sess\<lparr>UserId := u\<rparr> else x) = x"
      by simp
  qed
  then show ?thesis
    by (simp add: Session_save_def)
qed

lemma newSession_Sessions:
  "map session (Sessions (snd (newSession rnd now db username')))
   = map session (Sessions db) @ [sessionID_of rnd]"
proof -
  let ?sess = "\<lparr>Session_id = nextId (map Session_id (Sessions db)), session = sessionID_of rnd,
                  ephemeral = None, secret = None, UserId = None, createdAt = now\<rparr>"
  have fresh: "Session_id ?sess \<notin> Session_id ` set (Sessions db)"
    using nextId_fresh [of _ "map Session_id (Sessions db)"] by auto
  show ?thesis
  proof (cases "findUser db username'")
    case (Inl e)
    then show ?thesis
      by (simp add: newSession_def randomBytes_4 readUInt32LE_def Session_create_def Let_def
          sessionID_of_def)
  next
    case (Inr user)
    then show ?thesis
      using Session_save_fresh [OF fresh, of "Some (User_id user)"]
      by (simp add: newSession_def randomBytes_4 readUInt32LE_def Session_create_def Let_def
          setUser_def sessionID_of_def)
  qed
qed

lemma sessionID_of_bound: "sessionID_of rnd < 2 ^ 32"
proof -
  have "unat w < 256" for w :: byte
    using unsigned_less [of w, where ?'a = nat] by simp
  then have "unat (rnd 0) < 256" "unat (rnd 1) < 256" "unat (rnd 2) < 256" "unat (rnd 3) < 256"
    by simp_all
  then show ?thesis
    by (simp add: sessionID_of_def)
qed

text \<open>
  C5, as the code has it. \<open>newSession\<close> reads the four bytes it draws as a little-endian
  session id and always stores a new row with that id, whatever ids are stored already:
  there is no collision check and no retry. So the stored session ids stay pairwise
  distinct exactly when they were distinct and the drawn id is not among them.
\<close>

theorem newSession_no_collision_check:
  "sessionID_of rnd < 2 ^ 32
   \<and> map session (Sessions (snd (newSession rnd now db username')))
     = map session (Sessions db) @ [sessionID_of rnd]
   \<and> (distinct (map session (Sessions (snd (newSession rnd now db username'))))
        \<longleftrightarrow> distinct (map session (Sessions db))
            \<and> sessionID_of rnd \<notin> set (map session (Sessions db)))"
  using sessionID_of_bound [of rnd] by (auto simp add: newSession_Sessions)

text \<open>
  C5, as the claim states it, fails: two calls of \<open>newSession\<close> for alice that draw the same
  four bytes both succeed and leave two rows with the session id 16843009, both within a
  timeout of 30 seconds at time 2000 ms.
\<close>

theorem newSession_same_draw_collides:
  "reachable example_verifier colliding_db
   \<and> fst (newSession ones 0 example_db ''alice'')
     = Inr \<lparr>Session_id = 1, session = 16843009, ephemeral = None, secret = None,
            UserId = Some 1, createdAt = 0\<rparr>
   \<and> fst (newSession ones 1000 (snd (newSession ones 0 example_db ''alice'')) ''alice'')
     = Inr \<lparr>Session_id = 2, session = 16843009, ephemeral = None, secret = None,
            UserId = Some 1, createdAt = 1000\<rparr>
   \<and> map session (Sessions colliding_db) = [16843009, 16843009]
   \<and> findSession 2000 colliding_db 16843009 30
     = Inr \<lparr>Session_id = 1, session = 16843009, ephemeral = None, secret = None,
            UserId = Some 1, createdAt = 0\<rparr>"
proof -
  have "reachable example_verifier colliding_db"
    unfolding colliding_db_def example_db_def
    by (intro reachable.newSession reachable.addUser reachable.init)
  moreover have "fst (newSession ones 0 example_db ''alice'')
     = Inr \<lparr>Session_id = 1, session = 16843009, ephemeral = None, secret = None,
            UserId = Some 1, createdAt = 0\<rparr>"
    by (simp add: example_db_eq alice_eq ones_def db_defs toLowerCase_alice)
  moreover have "fst (newSession ones 1000 (snd (newSession ones 0 example_db ''alice'')) ''alice'')
     = Inr \<lparr>Session_id = 2, session = 16843009, ephemeral = None, secret = None,
            UserId = Some 1, createdAt = 1000\<rparr>"
    by (simp add: example_db_eq alice_eq ones_def db_defs toLowerCase_alice)
  moreover have "map session (Sessions colliding_db) = [16843009, 16843009]"
    by (simp add: colliding_db_eq)
  moreover have "findSession 2000 colliding_db 16843009 30
     = Inr \<lparr>Session_id = 1, session = 16843009, ephemeral = None, secret = None,
            UserId = Some 1, createdAt = 0\<rparr>"
    by (simp add: colliding_db_eq alice_eq db_defs)
  ultimately show ?thesis
    by (intro conjI)
qed

section \<open>setEphemeral: calls that run alone and calls that overlap\<close>

lemma setEphemeral_fails_iff:
  "isl (fst (setEphemeral db session' e k))
   \<longleftrightarrow> \<not> (\<exists>row \<in> set (Sessions db).
              session row = session' \<and> ephemeral row = None \<and> secret row = None)"
proof (cases "setEphemeral_findOne db session'")
  case None
  then have "\<not> (\<exists>row \<in> set (Sessions db).
              session row = session' \<and> ephemeral row = None \<and> secret row = None)"
    by (auto simp add: setEphemeral_findOne_def find_None_iff)
  moreover from None have "isl (fst (setEphemeral db session' e k))"
    by (simp add: setEphemeral_def)
  ultimately show ?thesis
    by blast
next
  case (Some row)
  then have "find (\<lambda>s. session s = session' \<and> ephemeral s = None \<and> secret s = None)
               (Sessions db) = Some row"
    by (simp add: setEphemeral_findOne_def)
  from find_Some_mem [OF this] Some show ?thesis
    by (auto simp add: setEphemeral_def Session_update_def)
qed

lemma setEphemeral_failure_keeps:
  "isl (fst (setEphemeral db session' e k)) \<Longrightarrow> snd (setEphemeral db session' e k) = db"
  by (cases "setEphemeral_findOne db session'")
    (simp_all add: setEphemeral_def Session_update_def)

lemma setEphemeral_unique_row:
  assumes "filter (\<lambda>s. session s = session') (Sessions db) = [row]"
      and "ephemeral row = None" and "secret row = None"
  shows "fst (setEphemeral db session' e k) = Inr (row\<lparr>ephemeral := Some e, secret := Some k\<rparr>)
       \<and> list_all (\<lambda>s. ephemeral s = Some e \<and> secret s = Some k)
            (filter (\<lambda>s. session s = session') (Sessions (snd (setEphemeral db session' e k))))
       \<and> (\<forall>e' k'. setEphemeral (snd (setEphemeral db session' e k)) session' e' k'
              = (Inl (Error ''Session not found''), snd (setEphemeral db session' e k)))"
proof -
  let ?P = "\<lambda>s. session s = session' \<and> ephemeral s = None \<and> secret s = None"
  let ?row' = "row\<lparr>ephemeral := Some e, secret := Some k\<rparr>"
  let ?db' = "snd (Session_update db row e k)"
  have "filter ?P (Sessions db) = filter (\<lambda>s. ephemeral s = None \<and> secret s = None) [row]"
    using assms(1) filter_conj_eq [of "\<lambda>s. session s = session'" _ "Sessions db"] by simp
  then have found: "setEphemeral_findOne db session' = Some row"
    using assms(2,3) by (simp add: setEphemeral_findOne_def find_filter)
  have first: "setEphemeral db session' e k = (Inr ?row', ?db')"
    using found by (simp add: setEphemeral_def Session_update_def)
  have all: "list_all (\<lambda>s. ephemeral s = Some e \<and> secret s = Some k)
               (filter (\<lambda>s. session s = session') (Sessions ?db'))"
  proof -
    have "s \<in> set (filter (\<lambda>s. session s = session') (Sessions db)) \<Longrightarrow> s = row" for s
      using assms(1) by simp
    then have "s \<in> set (Sessions db) \<Longrightarrow> session s = session' \<Longrightarrow> s = row" for s
      by simp
    then show ?thesis
      by (auto simp add: Session_update_def list_all_iff)
  qed
  have none: "setEphemeral_findOne ?db' session' = None"
    using all by (auto simp add: setEphemeral_findOne_def find_None_iff list_all_iff)
  have "setEphemeral ?db' session' e' k' = (Inl (Error ''Session not found''), ?db')" for e' k'
    using none by (simp add: setEphemeral_def)
  with first all show ?thesis by simp
qed

text \<open>
  A call that runs alone fails exactly when no stored row carries the session id with
  ephemeral and secret both unset, and a failed call leaves the database as it is. When
  exactly one stored row carries the session id and its ephemeral and secret are both
  unset, the call succeeds and writes both to that row; afterwards every row with that id
  has both set, and every further call that runs alone fails with "Session not found" and
  leaves the database as it is.
\<close>

lemma setEphemeral_alone:
  "(isl (fst (setEphemeral db session' e k))
      \<longleftrightarrow> \<not> (\<exists>row \<in> set (Sessions db).
                 session row = session' \<and> ephemeral row = None \<and> secret row = None))
   \<and> (isl (fst (setEphemeral db session' e k)) \<longrightarrow> snd (setEphemeral db session' e k) = db)
   \<and> (filter (\<lambda>s. session s = session') (Sessions db) = [row]
        \<and> ephemeral row = None \<and> secret row = None \<longrightarrow>
      fst (setEphemeral db session' e k) = Inr (row\<lparr>ephemeral := Some e, secret := Some k\<rparr>)
      \<and> list_all (\<lambda>s. ephemeral s = Some e \<and> secret s = Some k)
           (filter (\<lambda>s. session s = session') (Sessions (snd (setEphemeral db session' e k))))
      \<and> (\<forall>e' k'. setEphemeral (snd (setEphemeral db session' e k)) session' e' k'
             = (Inl (Error ''Session not found''), snd (setEphemeral db session' e k))))"
  using setEphemeral_fails_iff [of db session' e k] setEphemeral_failure_keeps [of db session' e k]
    setEphemeral_unique_row [of session' db row e k]
  by blast

text \<open>A call that runs alone is the call in flight whose two queries are answered one
  after the other.\<close>

lemma run_calls_alone:
  "run_calls [0, 0] [Called session' e k] db
   = ([Settled (fst (setEphemeral db session' e k))], snd (setEphemeral db session' e k))"
  by (cases "setEphemeral_findOne db session'")
    (simp_all add: setEphemeral_def Session_update_def)

text \<open>In the database where two rows carry the session id 16843009, a first
  \<open>setEphemeral\<close> with that id succeeds on the first row and a second one, after it,
  succeeds as well, on the second row.\<close>

lemma setEphemeral_twice_on_colliding_id:
  "fst (setEphemeral colliding_db 16843009 [1] [2])
     = Inr \<lparr>Session_id = 1, session = 16843009, ephemeral = Some [1], secret = Some [2],
            UserId = Some 1, createdAt = 0\<rparr>
   \<and> fst (setEphemeral (snd (setEphemeral colliding_db 16843009 [1] [2])) 16843009 [3] [4])
     = Inr \<lparr>Session_id = 2, session = 16843009, ephemeral = Some [3], secret = Some [4],
            UserId = Some 1, createdAt = 1000\<rparr>"
proof -
  have "fst (setEphemeral colliding_db 16843009 [1] [2])
     = Inr \<lparr>Session_id = 1, session = 16843009, ephemeral = Some [1], secret = Some [2],
            UserId = Some 1, createdAt = 0\<rparr>"
    by (simp add: colliding_db_eq) (simp add: db_defs)
  moreover have
    "fst (setEphemeral (snd (setEphemeral colliding_db 16843009 [1] [2])) 16843009 [3] [4])
     = Inr \<lparr>Session_id = 2, session = 16843009, ephemeral = Some [3], secret = Some [4],
            UserId = Some 1, createdAt = 1000\<rparr>"
    by (simp add: colliding_db_eq) (simp add: db_defs)
  ultimately show ?thesis
    by (intro conjI)
qed

lemma setEphemeral_findOne_unique:
  assumes "filter (\<lambda>s. session s = session') (Sessions db) = [row]"
      and "ephemeral row = None" and "secret row = None"
  shows "setEphemeral_findOne db session' = Some row"
proof -
  have "filter (\<lambda>s. session s = session' \<and> ephemeral s = None \<and> secret s = None) (Sessions db)
        = filter (\<lambda>s. ephemeral s = None \<and> secret s = None) [row]"
    using assms(1) filter_conj_eq [of "\<lambda>s. session s = session'" _ "Sessions db"] by simp
  then show ?thesis
    using assms(2,3) by (simp add: setEphemeral_findOne_def find_filter)
qed

lemma run_calls_one_by_one:
  "run_calls [0, 0, 1, 1] [Called session' e k, Called session' e' k'] db
   = ([Settled (fst (setEphemeral db session' e k)),
       Settled (fst (setEphemeral (snd (setEphemeral db session' e k)) session' e' k'))],
      snd (setEphemeral (snd (setEphemeral db session' e k)) session' e' k'))"
proof (cases "setEphemeral_findOne db session'")
  case None
  then show ?thesis
    by (simp add: setEphemeral_def)
next
  case (Some row)
  then show ?thesis
    by (cases "setEphemeral_findOne (snd (Session_update db row e k)) session'")
      (simp_all add: setEphemeral_def Session_update_def)
qed

lemma run_calls_unique_row:
  assumes "filter (\<lambda>s. session s = session') (Sessions db) = [row]"
      and "ephemeral row = None" and "secret row = None"
  shows "run_calls [0, 0, 1, 1] [Called session' e k, Called session' e' k'] db
       = ([Settled (Inr (row\<lparr>ephemeral := Some e, secret := Some k\<rparr>)),
           Settled (Inl (Error ''Session not found''))],
          db\<lparr>Sessions := map (\<lambda>s. if Session_id s = Session_id row
                                  then s\<lparr>ephemeral := Some e, secret := Some k\<rparr> else s)
                             (Sessions db)\<rparr>)"
proof -
  have "setEphemeral_findOne db session' = Some row"
    using assms by (rule setEphemeral_findOne_unique)
  then have "snd (setEphemeral db session' e k)
      = db\<lparr>Sessions := map (\<lambda>s. if Session_id s = Session_id row
                                then s\<lparr>ephemeral := Some e, secret := Some k\<rparr> else s)
                           (Sessions db)\<rparr>"
    by (simp add: setEphemeral_def Session_update_def)
  with setEphemeral_unique_row [OF assms, of e k] show ?thesis
    unfolding run_calls_one_by_one by simp
qed

lemma run_calls_overlapping:
  "setEphemeral_findOne db session' = Some row \<Longrightarrow>
   run_calls [0, 1, 0, 1] [Called session' e k, Called session' e' k'] db
   = ([Settled (Inr (row\<lparr>ephemeral := Some e, secret := Some k\<rparr>)),
       Settled (Inr (row\<lparr>ephemeral := Some e', secret := Some k'\<rparr>))],
      db\<lparr>Sessions := map (\<lambda>s. if Session_id s = Session_id row
                              then s\<lparr>ephemeral := Some e', secret := Some k'\<rparr> else s)
                         (Sessions db)\<rparr>)"
  by (simp add: Session_update_def)

text \<open>
  C6. The code departs from the claim when two calls overlap. Whenever the lookup of
  \<open>setEphemeral\<close> finds a row for a session id, two calls with that id whose lookups are
  both answered before either update both resolve, each with the row it found carrying
  its own ephemeral and secret: the second call does not fail. The stored row, that is
  every row with the primary key of the row found, ends with the ephemeral and the secret
  of the second update: what the first call wrote does not stay unchanged. The same two
  calls one after the other, on a database where one row carries the session id and has
  both unset, go as the claim says: the first resolves, the second is rejected with
  "Session not found" and the stored row keeps what the first wrote.
\<close>

theorem setEphemeral_overlapping_calls_both_succeed:
  "(setEphemeral_findOne db session' = Some row \<longrightarrow>
      run_calls [0, 1, 0, 1] [Called session' e k, Called session' e' k'] db
      = ([Settled (Inr (row\<lparr>ephemeral := Some e, secret := Some k\<rparr>)),
          Settled (Inr (row\<lparr>ephemeral := Some e', secret := Some k'\<rparr>))],
         db\<lparr>Sessions := map (\<lambda>s. if Session_id s = Session_id row
                                 then s\<lparr>ephemeral := Some e', secret := Some k'\<rparr> else s)
                            (Sessions db)\<rparr>))
   \<and> (filter (\<lambda>s. session s = session') (Sessions db) = [row]
        \<and> ephemeral row = None \<and> secret row = None \<longrightarrow>
      run_calls [0, 0, 1, 1] [Called session' e k, Called session' e' k'] db
      = ([Settled (Inr (row\<lparr>ephemeral := Some e, secret := Some k\<rparr>)),
          Settled (Inl (Error ''Session not found''))],
         db\<lparr>Sessions := map (\<lambda>s. if Session_id s = Session_id row
                                 then s\<lparr>ephemeral := Some e, secret := Some k\<rparr> else s)
                            (Sessions db)\<rparr>))"
  using run_calls_overlapping [of db session' row e k e' k']
    run_calls_unique_row [of session' db row e k e' k']
  by blast

theorem setEphemeral_overlapping_calls_both_succeed_witness:
  "reachable example_verifier fresh_db
   \<and> run_calls [0, 1, 0, 1] [Called 16843009 [1] [2], Called 16843009 [3] [4]] fresh_db
     = ([Settled (Inr \<lparr>Session_id = 1, session = 16843009, ephemeral = Some [1],
                       secret = Some [2], UserId = Some 1, createdAt = 0\<rparr>),
         Settled (Inr \<lparr>Session_id = 1, session = 16843009, ephemeral = Some [3],
                       secret = Some [4], UserId = Some 1, createdAt = 0\<rparr>)],
        fresh_db\<lparr>Sessions := [\<lparr>Session_id = 1, session = 16843009, ephemeral = Some [3],
                                secret = Some [4], UserId = Some 1, createdAt = 0\<rparr>]\<rparr>)
   \<and> run_calls [0, 0, 1, 1] [Called 16843009 [1] [2], Called 16843009 [3] [4]] fresh_db
     = ([Settled (Inr \<lparr>Session_id = 1, session = 16843009, ephemeral = Some [1],
                       secret = Some [2], UserId = Some 1, createdAt = 0\<rparr>),
         Settled (Inl (Error ''Session not found''))],
        fresh_db\<lparr>Sessions := [\<lparr>Session_id = 1, session = 16843009, ephemeral = Some [1],
                                secret = Some [2], UserId = Some 1, createdAt = 0\<rparr>]\<rparr>)"
proof -
  let ?row = "\<lparr>Session_id = 1, session = 16843009, ephemeral = None, secret = None,
               UserId = Some 1, createdAt = 0\<rparr>"
  have r: "reachable example_verifier fresh_db"
    unfolding fresh_db_def example_db_def
    by (intro reachable.newSession reachable.addUser reachable.init)
  have 1: "setEphemeral_findOne fresh_db 16843009 = Some ?row"
    by (simp add: fresh_db_eq setEphemeral_findOne_def)
  have 2: "filter (\<lambda>s. session s = 16843009) (Sessions fresh_db) = [?row]
      \<and> ephemeral ?row = None \<and> secret ?row = None"
    by (simp add: fresh_db_eq)
  have a: "run_calls [0, 1, 0, 1] [Called 16843009 [1] [2], Called 16843009 [3] [4]] fresh_db
     = ([Settled (Inr \<lparr>Session_id = 1, session = 16843009, ephemeral = Some [1],
                       secret = Some [2], UserId = Some 1, createdAt = 0\<rparr>),
         Settled (Inr \<lparr>Session_id = 1, session = 16843009, ephemeral = Some [3],
                       secret = Some [4], UserId = Some 1, createdAt = 0\<rparr>)],
        fresh_db\<lparr>Sessions := [\<lparr>Session_id = 1, session = 16843009, ephemeral = Some [3],
                                secret = Some [4], UserId = Some 1, createdAt = 0\<rparr>]\<rparr>)"
    using setEphemeral_overlapping_calls_both_succeed
      [of fresh_db 16843009 ?row "[1]" "[2]" "[3]" "[4]"] 1
    by (simp add: fresh_db_eq)
  have b: "run_calls [0, 0, 1, 1] [Called 16843009 [1] [2], Called 16843009 [3] [4]] fresh_db
     = ([Settled (Inr \<lparr>Session_id = 1, session = 16843009, ephemeral = Some [1],
                       secret = Some [2], UserId = Some 1, createdAt = 0\<rparr>),
         Settled (Inl (Error ''Session not found''))],
        fresh_db\<lparr>Sessions := [\<lparr>Session_id = 1, session = 16843009, ephemeral = Some [1],
                                secret = Some [2], UserId = Some 1, createdAt = 0\<rparr>]\<rparr>)"
    using setEphemeral_overlapping_calls_both_succeed
      [of fresh_db 16843009 ?row "[1]" "[2]" "[3]" "[4]"] 2
    by (simp add: fresh_db_eq)
  from r a b show ?thesis
    by (intro conjI)
qed

section \<open>Session lookup\<close>

text \<open>Within 2^31 seconds, \<open>getSecondsBetween\<close> is the number of whole seconds elapsed.\<close>

lemma getSecondsBetween_whole_seconds:
  assumes "0 \<le> now - created" "now - created < 2 ^ 31 * 1000"
  shows "getSecondsBetween created now = (now - created) div 1000"
proof -
  have "0 \<le> (now - created) div 1000" using assms(1) by simp
  moreover have "(now - created) div 1000 < 2 ^ 31" using assms(2) by simp
  ultimately show ?thesis
    using assms(1) by (simp add: getSecondsBetween_def ToInt32_def Let_def)
qed



text \<open>
  C7, as the code has it. For a session id that no row carries, \<open>findSession\<close> fails with
  "Session not found". Otherwise it returns the first row with that id exactly when the
  whole seconds between its creation and now are at most the timeout and the row's user
  exists and is not UNVERIFIED; it returns no other row; and when the whole seconds exceed
  the timeout it fails with "Session has expired".
\<close>

theorem findSession_returns_iff:
  "(find (\<lambda>s. session s = session') (Sessions db) = None \<longrightarrow>
      findSession now db session' timeout = Inl (SessionNotFound ''Session not found'' session'))
   \<and> (find (\<lambda>s. session s = session') (Sessions db) = Some sess \<longrightarrow>
      (findSession now db session' timeout = Inr sess \<longleftrightarrow>
         getSecondsBetween (createdAt sess) now \<le> timeout
         \<and> (\<exists>user. getUser db sess = Some user \<and> access user \<noteq> UNVERIFIED))
      \<and> (timeout < getSecondsBetween (createdAt sess) now \<longrightarrow>
           findSession now db session' timeout = Inl (Error ''Session has expired''))
      \<and> (\<forall>r. findSession now db session' timeout = Inr r \<longrightarrow> r = sess))"
  by (auto simp add: findSession_def Let_def split: option.splits)

theorem findSession_returns_iff_witness:
  "findSession 30999 unverified_db 9 30
     = Inr \<lparr>Session_id = 3, session = 9, ephemeral = None, secret = None,
            UserId = Some 1, createdAt = 0\<rparr>
   \<and> findSession 31000 unverified_db 9 30 = Inl (Error ''Session has expired'')
   \<and> findSession 0 unverified_db 10 30 = Inl (SessionNotFound ''Session not found'' 10)"
proof -
  let ?s9 = "\<lparr>Session_id = 3, session = 9, ephemeral = None, secret = None,
               UserId = Some 1, createdAt = 0\<rparr>"
  have f9: "find (\<lambda>s. session s = 9) (Sessions unverified_db) = Some ?s9"
    by (simp add: unverified_db_def)
  have f10: "find (\<lambda>s. session s = 10) (Sessions unverified_db) = None"
    by (simp add: unverified_db_def)
  have a: "getSecondsBetween (createdAt ?s9) 30999 \<le> 30"
    by (simp add: getSecondsBetween_def ToInt32_def)
  have b: "30 < getSecondsBetween (createdAt ?s9) 31000"
    by (simp add: getSecondsBetween_def ToInt32_def)
  have "getUser unverified_db ?s9 = Some alice \<and> access alice \<noteq> UNVERIFIED"
    by (simp add: getUser_def unverified_db_def alice_eq)
  then have u: "\<exists>user. getUser unverified_db ?s9 = Some user \<and> access user \<noteq> UNVERIFIED"
    by blast
  have 1: "findSession 30999 unverified_db 9 30 = Inr ?s9"
    using findSession_returns_iff [of 9 unverified_db 30999 30 ?s9] f9 a u by blast
  have 2: "findSession 31000 unverified_db 9 30 = Inl (Error ''Session has expired'')"
    using findSession_returns_iff [of 9 unverified_db 31000 30 ?s9] f9 b by blast
  have 3: "findSession 0 unverified_db 10 30 = Inl (SessionNotFound ''Session not found'' 10)"
    using findSession_returns_iff [of 10 unverified_db 0 30] f10 by blast
  from 1 2 3 show ?thesis
    by (intro conjI)
qed

text \<open>
  C7, as the claim states it, fails: session 7 is one second old, well within the timeout
  of 30 seconds, and \<open>findSession\<close> does not return it, because its user is UNVERIFIED.
\<close>

theorem findSession_fails_within_timeout:
  "find (\<lambda>s. session s = 7) (Sessions unverified_db)
     = Some \<lparr>Session_id = 1, session = 7, ephemeral = None, secret = None,
             UserId = Some 2, createdAt = 0\<rparr>
   \<and> getSecondsBetween 0 1000 = 1
   \<and> findSession 1000 unverified_db 7 30 = Inl (Error ''Session belongs to UNVERIFIED User'')"
  by (simp add: unverified_db_def alice_eq bob_def findSession_def getUser_def
      getSecondsBetween_def ToInt32_def)

section \<open>Salt and verifier of a user\<close>

lemma toLowerCase_idem [simp]: "toLowerCase (toLowerCase str) = toLowerCase str"
  by (induction str) (auto simp add: toLowerCase_def Let_def)

lemma credentials_setPassword:
  "credentials (setPassword cv rnd u password)
   = (randomBytes 4 rnd,
      cv (randomBytes 4 rnd) (Buffer_from (toLowerCase (username u))) (Buffer_from password))"
  by (simp add: credentials_def setPassword_def Let_def)

lemma username_setPassword [simp]: "username (setPassword cv rnd u password) = username u"
  by (simp add: setPassword_def Let_def)

lemma credentials_ok_setPassword: "credentials_ok cv (setPassword cv rnd u password)"
  using credentials_setPassword [of cv rnd u password]
  by (auto simp add: credentials_ok_def credentials_def)

lemma credentials_addUser:
  "credentials (fst (addUser cv rnd db username' password email' access'))
   = (randomBytes 4 rnd,
      cv (randomBytes 4 rnd) (Buffer_from (toLowerCase username')) (Buffer_from password))"
  by (simp add: credentials_def addUser_def Let_def)

lemma credentials_ok_addUser:
  "credentials_ok cv (fst (addUser cv rnd db username' password email' access'))"
  by (auto simp add: credentials_ok_def addUser_def Let_def)

lemma Users_addUser:
  "Users (snd (addUser cv rnd db username' password email' access'))
   = Users db @ [fst (addUser cv rnd db username' password email' access')]"
  by (simp add: addUser_def Let_def)

lemma credentials_ok_update [simp]:
  "credentials_ok cv (u\<lparr>access := level\<rparr>) = credentials_ok cv u"
  "credentials_ok cv (u\<lparr>email := e\<rparr>) = credentials_ok cv u"
  by (simp_all add: credentials_ok_def)

lemma list_all_User_save:
  "list_all P (Users db) \<Longrightarrow> P user \<Longrightarrow> list_all P (Users (User_save db user))"
  by (auto simp add: User_save_def list_all_iff)

lemma Users_newSession [simp]: "Users (snd (newSession rnd now db username')) = Users db"
  by (simp add: newSession_def Let_def Session_create_def setUser_def Session_save_def
      split: sum.splits prod.splits)

lemma Users_Session_update [simp]: "Users (snd (Session_update db sess e k)) = Users db"
  by (simp add: Session_update_def)

lemma Users_setEphemeral [simp]: "Users (snd (setEphemeral db session' e k)) = Users db"
  by (simp add: setEphemeral_def Session_update_def split: option.splits)

lemma credentials_update [simp]:
  "credentials (u\<lparr>access := level\<rparr>) = credentials u"
  "credentials (u\<lparr>email := e\<rparr>) = credentials u"
  by (simp_all add: credentials_def)

lemma credentials_User_save:
  "set (map credentials (Users (User_save db user)))
   \<subseteq> insert (credentials user) (set (map credentials (Users db)))"
  by (auto simp add: User_save_def)

lemma credentials_userlevel:
  assumes "userlevel db name level = Inr db'"
  shows "set (map credentials (Users db')) \<subseteq> set (map credentials (Users db))"
proof -
  from assms obtain u where u: "find (\<lambda>u. username u = toLowerCase name) (Users db) = Some u"
      and db': "db' = User_save db (u\<lparr>access := level\<rparr>)"
    by (auto simp add: userlevel_def split: option.splits)
  have "credentials u \<in> set (map credentials (Users db))"
    using find_Some_mem [OF u] by simp
  then show ?thesis
    using credentials_User_save [of db "u\<lparr>access := level\<rparr>"] db' by auto
qed

lemma credentials_editUser_email:
  assumes "editUser cv rnd db name None email' = Inr db'"
  shows "set (map credentials (Users db')) \<subseteq> set (map credentials (Users db))"
proof -
  from assms obtain u where u: "find (\<lambda>u. username u = toLowerCase name) (Users db) = Some u"
      and db': "db' = User_save db (case email' of None \<Rightarrow> u | Some e \<Rightarrow> u\<lparr>email := e\<rparr>)"
    by (auto simp add: editUser_def Let_def split: option.splits)
  have "credentials (case email' of None \<Rightarrow> u | Some e \<Rightarrow> u\<lparr>email := e\<rparr>)
        \<in> set (map credentials (Users db))"
    using find_Some_mem [OF u] by (simp split: option.splits)
  then show ?thesis
    using credentials_User_save [of db "case email' of None \<Rightarrow> u | Some e \<Rightarrow> u\<lparr>email := e\<rparr>"]
      db' by auto
qed

lemma credentials_userpass:
  assumes "userpass cv rnd db name password = Inr db'"
  shows "set (map credentials (Users db'))
         \<subseteq> insert (randomBytes 4 rnd,
                      cv (randomBytes 4 rnd) (Buffer_from (toLowerCase name)) (Buffer_from password))
               (set (map credentials (Users db)))"
proof -
  from assms obtain u where u: "find (\<lambda>u. username u = toLowerCase name) (Users db) = Some u"
      and db': "db' = User_save db (setPassword cv rnd u password)"
    by (auto simp add: userpass_def split: option.splits)
  have "username u = toLowerCase name"
    using find_Some_mem [OF u] by simp
  then show ?thesis
    using credentials_User_save [of db "setPassword cv rnd u password"] db'
    by (simp add: credentials_setPassword)
qed

lemma credentials_editUser_password:
  assumes "editUser cv rnd db name (Some password) email' = Inr db'"
  shows "set (map credentials (Users db'))
         \<subseteq> insert (randomBytes 4 rnd,
                      cv (randomBytes 4 rnd) (Buffer_from (toLowerCase name)) (Buffer_from password))
               (set (map credentials (Users db)))"
proof -
  let ?user = "\<lambda>u. case email' of None \<Rightarrow> setPassword cv rnd u password
                      | Some e \<Rightarrow> (setPassword cv rnd u password)\<lparr>email := e\<rparr>"
  from assms obtain u where u: "find (\<lambda>u. username u = toLowerCase name) (Users db) = Some u"
      and db': "db' = User_save db (?user u)"
    by (auto simp add: editUser_def Let_def split: option.splits)
  have "username u = toLowerCase name"
    using find_Some_mem [OF u] by simp
  then have "credentials (?user u)
      = (randomBytes 4 rnd,
         cv (randomBytes 4 rnd) (Buffer_from (toLowerCase name)) (Buffer_from password))"
    by (simp add: credentials_setPassword split: option.splits)
  then show ?thesis
    using credentials_User_save [of db "?user u"] db' by simp
qed

lemma reachable_credentials_ok:
  "reachable cv db \<Longrightarrow> list_all (credentials_ok cv) (Users db)"
proof (induction rule: reachable.induct)
  case init
  then show ?case by simp
next
  case (addUser db rnd username' password email' access')
  then show ?case by (simp add: Users_addUser credentials_ok_addUser)
next
  case (userpass db rnd user password db')
  then obtain u where "find (\<lambda>u. username u = toLowerCase user) (Users db) = Some u"
      and "db' = User_save db (setPassword cv rnd u password)"
    by (auto simp add: userpass_def split: option.splits)
  with userpass.IH show ?case
    by (simp add: list_all_User_save credentials_ok_setPassword)
next
  case (userlevel db user level db')
  then obtain u where u: "find (\<lambda>u. username u = toLowerCase user) (Users db) = Some u"
      and "db' = User_save db (u\<lparr>access := level\<rparr>)"
    by (auto simp add: userlevel_def split: option.splits)
  with userlevel.IH list_all_find [OF userlevel.IH u] show ?case
    by (simp add: list_all_User_save)
next
  case (editUser db rnd ident password' email' db')
  then obtain u where u: "find (\<lambda>u. username u = toLowerCase ident) (Users db) = Some u"
      and db': "db' = User_save db
         (let user = (case password' of None \<Rightarrow> u | Some pw \<Rightarrow> setPassword cv rnd u pw)
          in case email' of None \<Rightarrow> user | Some e \<Rightarrow> user\<lparr>email := e\<rparr>)"
    by (auto simp add: editUser_def Let_def split: option.splits)
  have "credentials_ok cv (case password' of None \<Rightarrow> u | Some pw \<Rightarrow> setPassword cv rnd u pw)"
    using list_all_find [OF editUser.IH u]
    by (simp add: credentials_ok_setPassword split: option.splits)
  then have "credentials_ok cv
         (let user = (case password' of None \<Rightarrow> u | Some pw \<Rightarrow> setPassword cv rnd u pw)
          in case email' of None \<Rightarrow> user | Some e \<Rightarrow> user\<lparr>email := e\<rparr>)"
    by (simp add: Let_def split: option.splits)
  with editUser.IH db' show ?case
    by (simp add: list_all_User_save)
next
  case (newSession db rnd now username')
  then show ?case by simp
next
  case (setEphemeral db session' ephemeral' secret')
  then show ?case by simp
next
  case (setEphemeral_update db\<^sub>0 session' sess db ephemeral' secret')
  then show ?case by simp
qed

lemma registered_db_eq:
  "registered_db =
     \<lparr>Users = [\<lparr>User_id = 1, username = ''alice'', email = ''alice@example.org'',
                verifier = [1, 1, 1, 1] @ Buffer_from ''alice'' @ Buffer_from ''secret'',
                salt = [1, 1, 1, 1], access = UNVERIFIED, active = False\<rparr>],
      Sessions = [],
      Profiles = [\<lparr>Profile_id = 1, Profile_username = ''Alice'', Profile_UserId = Some 1\<rparr>]\<rparr>"
  by (simp add: registered_db_def addUser_def Let_def randomBytes_4 ones_def nextId_def
      toLowerCase_alice example_verifier_def)

text \<open>
  C8. \<open>setPassword\<close> and \<open>addUser\<close> write the salt and the verifier together: the salt is
  the four bytes just drawn and the verifier is computed from that salt and the lowercased
  user name. In every database the functions can produce, every User row has a salt of
  four bytes and a verifier computed from its salt and its lowercased user name. The
  writes of a User row that set no password (\<open>userlevel\<close>, \<open>editUser\<close> without a password)
  leave no pair of salt and verifier in the table that was not there before; those that
  set one (\<open>userpass\<close>, \<open>editUser\<close> with a password) add only the pair written together.
\<close>

theorem salt_and_verifier_written_jointly:
  "credentials (setPassword cv rnd u password)
     = (randomBytes 4 rnd,
        cv (randomBytes 4 rnd) (Buffer_from (toLowerCase (username u))) (Buffer_from password))
   \<and> credentials (fst (addUser cv rnd db username' password email' access'))
     = (randomBytes 4 rnd,
        cv (randomBytes 4 rnd) (Buffer_from (toLowerCase username')) (Buffer_from password))
   \<and> length (randomBytes 4 rnd) = 4
   \<and> (reachable cv db \<longrightarrow> list_all (credentials_ok cv) (Users db))
   \<and> (userlevel db name level = Inr db' \<longrightarrow>
        set (map credentials (Users db')) \<subseteq> set (map credentials (Users db)))
   \<and> (editUser cv rnd db name None mail = Inr db' \<longrightarrow>
        set (map credentials (Users db')) \<subseteq> set (map credentials (Users db)))
   \<and> (userpass cv rnd db name password = Inr db' \<longrightarrow>
        set (map credentials (Users db'))
        \<subseteq> insert (randomBytes 4 rnd,
                     cv (randomBytes 4 rnd) (Buffer_from (toLowerCase name)) (Buffer_from password))
              (set (map credentials (Users db))))
   \<and> (editUser cv rnd db name (Some password) mail = Inr db' \<longrightarrow>
        set (map credentials (Users db'))
        \<subseteq> insert (randomBytes 4 rnd,
                     cv (randomBytes 4 rnd) (Buffer_from (toLowerCase name)) (Buffer_from password))
              (set (map credentials (Users db))))"
  using credentials_setPassword [of cv rnd u password]
    credentials_addUser [of cv rnd db username' password email' access']
    reachable_credentials_ok [of cv db]
    credentials_userlevel [of db name level db']
    credentials_editUser_email [of cv rnd db name mail db']
    credentials_userpass [of cv rnd db name password db']
    credentials_editUser_password [of cv rnd db name password mail db']
  by simp

theorem salt_and_verifier_written_jointly_witness:
  "reachable example_verifier registered_db
   \<and> list_all (credentials_ok example_verifier) (Users registered_db)
   \<and> (\<exists>db'. userlevel registered_db ''Alice'' USER = Inr db'
          \<and> set (map credentials (Users db')) \<subseteq> set (map credentials (Users registered_db)))
   \<and> (\<exists>db'. editUser example_verifier ones registered_db ''alice'' None (Some ''a@example.org'')
            = Inr db'
          \<and> set (map credentials (Users db')) \<subseteq> set (map credentials (Users registered_db)))
   \<and> (\<exists>db'. userpass example_verifier ones registered_db ''ALICE'' ''hunter2'' = Inr db'
          \<and> set (map credentials (Users db'))
              \<subseteq> insert ([1, 1, 1, 1],
                           example_verifier [1, 1, 1, 1] (Buffer_from ''alice'') (Buffer_from ''hunter2''))
                    (set (map credentials (Users registered_db))))
   \<and> (\<exists>db'. editUser example_verifier ones registered_db ''alice'' (Some ''hunter2'') None = Inr db'
          \<and> set (map credentials (Users db'))
              \<subseteq> insert ([1, 1, 1, 1],
                           example_verifier [1, 1, 1, 1] (Buffer_from ''alice'') (Buffer_from ''hunter2''))
                    (set (map credentials (Users registered_db))))"
proof -
  have r: "reachable example_verifier registered_db"
    unfolding registered_db_def by (rule reachable.addUser) (rule reachable.init)
  have found: "find (\<lambda>u. username u = ''alice'') (Users registered_db)
               = Some (hd (Users registered_db))"
    by (simp add: registered_db_eq)
  have b: "randomBytes 4 ones = [1, 1, 1, 1]"
    by (simp add: randomBytes_4 ones_def)
  obtain d1 where d1: "userlevel registered_db ''Alice'' USER = Inr d1"
    using found by (simp add: userlevel_def toLowerCase_alice)
  obtain d2 where d2: "editUser example_verifier ones registered_db ''alice'' None
      (Some ''a@example.org'') = Inr d2"
    using found by (simp add: editUser_def toLowerCase_alice)
  obtain d3 where d3: "userpass example_verifier ones registered_db ''ALICE'' ''hunter2'' = Inr d3"
    using found by (simp add: userpass_def toLowerCase_alice)
  obtain d4 where d4: "editUser example_verifier ones registered_db ''alice'' (Some ''hunter2'') None
      = Inr d4"
    using found by (simp add: editUser_def toLowerCase_alice)
  note T = salt_and_verifier_written_jointly
  have 1: "list_all (credentials_ok example_verifier) (Users registered_db)"
    using T [of example_verifier ones _ _ registered_db] r by blast
  have 2: "set (map credentials (Users d1)) \<subseteq> set (map credentials (Users registered_db))"
    using T [of _ _ _ _ registered_db _ _ _ "''Alice''" USER d1] d1 by blast
  have 3: "set (map credentials (Users d2)) \<subseteq> set (map credentials (Users registered_db))"
    using T [of example_verifier ones _ _ registered_db _ _ _ "''alice''" _ d2
        "Some ''a@example.org''"] d2 by blast
  have 4: "set (map credentials (Users d3))
       \<subseteq> insert ([1, 1, 1, 1],
                    example_verifier [1, 1, 1, 1] (Buffer_from ''alice'') (Buffer_from ''hunter2''))
             (set (map credentials (Users registered_db)))"
    using T [of example_verifier ones _ "''hunter2''" registered_db _ _ _ "''ALICE''" _ d3] d3
    by (simp add: b toLowerCase_alice)
  have 5: "set (map credentials (Users d4))
       \<subseteq> insert ([1, 1, 1, 1],
                    example_verifier [1, 1, 1, 1] (Buffer_from ''alice'') (Buffer_from ''hunter2''))
             (set (map credentials (Users registered_db)))"
    using T [of example_verifier ones _ "''hunter2''" registered_db _ _ _ "''alice''" _ d4 None] d4
    by (simp add: b toLowerCase_alice)
  show ?thesis
    using r 1 2 3 4 5 d1 d2 d3 d4 by blast
qed

end
